theory Spec2Isabelle
  imports Complex_Main
begin

section \<open>Numbers, arrays, errors\<close>

text \<open>
  The propagators of \<^verbatim>\<open>axiprop/lib.py\<close> compute with numpy arrays of
  \<^verbatim>\<open>float64\<close> and \<^verbatim>\<open>complex128\<close>. Here a float is a \<^typ>\<open>real\<close> and a
  complex float is a \<^typ>\<open>complex\<close>: every operation is the exact one, rounding is not
  modelled. numpy continues with \<^verbatim>\<open>inf\<close> or \<^verbatim>\<open>nan\<close> after a division by zero;
  the reals hold neither, so a division whose divisor is zero ends the model with the
  outcome \<open>NonFinite\<close> (it is not a Python exception; it marks where the exact model
  stops following the run).

  An array is its C-ordered data: a one-dimensional array is a list, the
  \<^verbatim>\<open>(Nx, Ny)\<close> arrays of the Cartesian propagator are the list of their
  \<^verbatim>\<open>Nx * Ny\<close> entries row after row, a field \<^verbatim>\<open>u\<close> (an \<open>ndarray\<close>) is the list
  of its slices \<^verbatim>\<open>u[ikz]\<close>, and the stack that \<^verbatim>\<open>steps\<close> returns (an
  \<open>ndarray3\<close>) is the list of such fields, one for each step. Sizes are natural numbers.
  The configured \<^verbatim>\<open>dtype\<close> is a complex type (with a real one the in-place products
  by a complex exponential in \<^verbatim>\<open>step\<close> cannot be stored); a cast between the two
  complex types changes no value of the exact model.
\<close>

datatype error =
    AssertionError
  | IndexError
  | NameError
  | UnboundLocalError
  | ValueError
  | TypeError
  | AttributeError
  | BackendNotAvailable string
  | NonFinite

datatype dtype = Complex64 | Complex128

record 'a array =
  adtype :: dtype
  data :: "'a list"

type_synonym ndarray = "complex list array"

type_synonym ndarray3 = "complex list list array"

text \<open>
  The array backend (\<^verbatim>\<open>axiprop/backends.py\<close>) and scipy's Bessel functions are
  outside \<^verbatim>\<open>lib.py\<close>. The two matrix inversions of a backend and the two scipy
  functions are parameters of the model; the other backend operations are elementwise
  arithmetic and transfers, written out below where they are used.
\<close>

record backend =
  name :: string
  inv_sqr_on_host :: "real list list \<Rightarrow> error + real list list"
  inv_on_host :: "real list list \<Rightarrow> error + real list list"

record externals =
  AVAILABLE_BACKENDS :: "(string \<times> backend) list"
  backend_strings_ordered :: "string list"
  AXIPROP_BACKEND :: "string option"
  jn :: "int \<Rightarrow> real \<Rightarrow> real"
  bessel_zeros :: "int \<Rightarrow> nat \<Rightarrow> real list"

datatype kind = Symmetric | Resampling | FFT2

record propagator =
  kind :: kind
  dtype :: dtype
  mode :: int
  bcknd :: backend
  Nkz :: nat
  kz :: "real list"
  alpha_np1 :: real
  alpha :: "real list"
  kr :: "real list"
  kr2 :: "real list"
  self_r :: "real list"
  Rmax :: real
  Nr :: nat
  r_new :: "real list"
  Rmax_new :: real
  Nr_new :: nat
  Lx :: real
  Ly :: real
  Nx :: nat
  Ny :: nat
  self_x :: "real list"
  self_y :: "real list"
  kx :: "real list"
  ky :: "real list"
  self_j :: "real list"
  TM :: "complex list list"
  invTM :: "complex list list"
  shape_trns :: "nat list"
  shape_trns_new :: "nat list"
  u_loc :: "complex list"
  u_ht :: "complex list"
  u_iht :: "complex list"
  stepping_image :: "complex list list option"
  phase_loc :: "complex list list option"
  z_propagation :: "real option"

text \<open>
  The attributes \<^verbatim>\<open>x\<close>, \<^verbatim>\<open>y\<close>, \<^verbatim>\<open>r\<close> and \<^verbatim>\<open>_j\<close> are the fields
  \<open>self_x\<close>, \<open>self_y\<close>, \<open>self_r\<close> and \<open>self_j\<close>.
  \<open>blank\<close> is an object on which no attribute has been set yet. The three attributes that only
  \<^verbatim>\<open>initiate_stepping\<close> creates are optional: reading one that is not there
  raises \<^verbatim>\<open>AttributeError\<close>.
\<close>

definition blank :: "backend \<Rightarrow> propagator" where
  "blank b = \<lparr> kind = Symmetric, dtype = Complex128, mode = 0, bcknd = b, Nkz = 0, kz = [],
     alpha_np1 = 0, alpha = [], kr = [], kr2 = [], self_r = [], Rmax = 0, Nr = 0, r_new = [],
     Rmax_new = 0, Nr_new = 0, Lx = 0, Ly = 0, Nx = 0, Ny = 0, self_x = [], self_y = [], kx = [],
     ky = [], self_j = [], TM = [], invTM = [], shape_trns = [], shape_trns_new = [],
     u_loc = [], u_ht = [], u_iht = [], stepping_image = None, phase_loc = None,
     z_propagation = None \<rparr>"

section \<open>numpy helpers\<close>

text \<open>\<^verbatim>\<open>np.linspace(start, stop, num)\<close> and its \<^verbatim>\<open>endpoint=False\<close> form.\<close>

definition linspace :: "real \<Rightarrow> real \<Rightarrow> nat \<Rightarrow> real list" where
  "linspace start stop num =
     (if num = 1 then [start]
      else map (\<lambda>i. start + real i * ((stop - start) / real (num - 1))) [0..<num])"


text \<open>
  \<^verbatim>\<open>np.fft.fftfreq(n, d)\<close>: the bins \<^verbatim>\<open>0, 1, ..., (n-1)//2, -(n//2), ..., -1\<close>
  divided by \<^verbatim>\<open>n * d\<close>.
\<close>

definition fftfreq_bins :: "nat \<Rightarrow> int list" where
  "fftfreq_bins n =
     map int [0..<(n + 1) div 2] @ map (\<lambda>i. int i - int (n div 2)) [0..<n div 2]"

definition fftfreq :: "nat \<Rightarrow> real \<Rightarrow> error + real list" where
  "fftfreq n d =
     (if real n * d = 0 then Inl NonFinite
      else Inr (map (\<lambda>k. real_of_int k / (real n * d)) (fftfreq_bins n)))"

text \<open>\<^verbatim>\<open>a[:, None] op b[None, :]\<close>: the outer combination, row after row.\<close>

definition outer :: "('a \<Rightarrow> 'b \<Rightarrow> 'c) \<Rightarrow> 'a list \<Rightarrow> 'b list \<Rightarrow> 'c list list" where
  "outer f as bs = map (\<lambda>a. map (f a) bs) as"

section \<open>Grid construction (class PropagatorCommon)\<close>

definition init_backend ::
  "externals \<Rightarrow> string option \<Rightarrow> error + backend" where
  "init_backend ext backend =
     (let avail = map fst (AVAILABLE_BACKENDS ext);
          chosen =
            (case backend of
               Some b \<Rightarrow> Some b
             | None \<Rightarrow>
                 (case AXIPROP_BACKEND ext of
                    Some e \<Rightarrow> Some e
                  | None \<Rightarrow> find (\<lambda>s. s \<in> set avail) (backend_strings_ordered ext)))
      in case chosen of
           None \<Rightarrow> Inl UnboundLocalError
         | Some backend_string \<Rightarrow>
             (case map_of (AVAILABLE_BACKENDS ext) backend_string of
                None \<Rightarrow> Inl (BackendNotAvailable backend_string)
              | Some b \<Rightarrow> Inr b))"

datatype kz_axis = KzTuple real real nat | KzArray "real list"

fun init_kz :: "propagator \<Rightarrow> kz_axis \<Rightarrow> propagator" where
  "init_kz self (KzTuple k0 Lkz Nkz') =
     (let Nkz_2 = (Nkz' + 1) div 2;
          half_ax = linspace 0 1 Nkz_2;
          full_ax = rev (map uminus (tl half_ax)) @ half_ax
      in self\<lparr> Nkz := length full_ax, kz := map (\<lambda>f. k0 + Lkz / 2 * f) full_ax \<rparr>)"
| "init_kz self (KzArray ks) = self\<lparr> kz := ks, Nkz := length ks \<rparr>"

text \<open>
  \<^verbatim>\<open>scipy.special.jn_zeros(n, nt)\<close> returns the first \<open>nt\<close> positive zeros of the
  Bessel function \<open>J\<^sub>n\<close>, which the field \<open>bessel_zeros\<close> of the externals stands for; it
  raises \<^verbatim>\<open>ValueError\<close> when \<open>nt\<close> is not positive.
\<close>

definition jn_zeros :: "externals \<Rightarrow> int \<Rightarrow> nat \<Rightarrow> error + real list" where
  "jn_zeros ext n nt = (if nt = 0 then Inl ValueError else Inr (bessel_zeros ext n nt))"

text \<open>
  \<^verbatim>\<open>init_kr\<close>: for a mode other than 0 the array \<^verbatim>\<open>alpha\<close> starts with
  \<^verbatim>\<open>0.\<close> followed by \<^verbatim>\<open>Nr\<close> roots; for mode 0 it is \<^verbatim>\<open>Nr+1\<close> roots.
  \<^verbatim>\<open>alpha[-1]\<close> of an empty array raises.
\<close>

definition init_kr :: "externals \<Rightarrow> propagator \<Rightarrow> real \<Rightarrow> nat \<Rightarrow> error + propagator" where
  "init_kr ext self Rmax' Nr' =
     (case (if mode self \<noteq> 0 then map_sum id (\<lambda>zs. 0 # zs) (jn_zeros ext (mode self) Nr')
            else jn_zeros ext (mode self) (Nr' + 1)) of
        Inl e \<Rightarrow> Inl e
      | Inr alpha' \<Rightarrow>
          if alpha' = [] then Inl IndexError
          else if Rmax' = 0 \<and> butlast alpha' \<noteq> [] then Inl NonFinite
          else
            (let kr' = map (\<lambda>a. a / Rmax') (butlast alpha')
             in Inr (self\<lparr> alpha_np1 := last alpha', alpha := butlast alpha',
                           kr := kr', kr2 := map (\<lambda>k. k ^ 2) kr' \<rparr>)))"


definition init_r_symmetric ::
  "externals \<Rightarrow> propagator \<Rightarrow> real \<times> nat \<Rightarrow> error + (real list \<times> real \<times> nat)" where
  "init_r_symmetric ext self r_axis =
     (case r_axis of (Rmax', Nr') \<Rightarrow>
        (case jn_zeros ext (mode self) (Nr' + 1) of
           Inl e \<Rightarrow> Inl e
         | Inr alpha0 \<Rightarrow>
             if alpha0 = [] then Inl IndexError
             else
               (let alpha_np1' = last alpha0; alpha' = butlast alpha0
                in if alpha_np1' = 0 \<and> alpha' \<noteq> [] then Inl NonFinite
                   else Inr (map (\<lambda>a. Rmax' * a / alpha_np1') alpha', Rmax', Nr'))))"


text \<open>
  \<^verbatim>\<open>init_xykxy_fft2\<close>. The spacings \<^verbatim>\<open>dx = self.x[1] - self.x[0]\<close> and
  \<^verbatim>\<open>dy\<close> are read before the single-sample cases are looked at; reading index 1 of an
  axis with fewer than two samples raises \<^verbatim>\<open>IndexError\<close>.
\<close>

definition init_xykxy_fft2 ::
  "propagator \<Rightarrow> real \<times> nat \<Rightarrow> real \<times> nat \<Rightarrow> error + propagator" where
  "init_xykxy_fft2 self x_axis y_axis =
     (case x_axis of (Lx', Nx') \<Rightarrow> case y_axis of (Ly', Ny') \<Rightarrow>
        (let x0 = linspace (- Lx' / 2) (Lx' / 2) Nx';
             y0 = linspace (- Ly' / 2) (Ly' / 2) Ny'
         in if length x0 < 2 then Inl IndexError
            else if length y0 < 2 then Inl IndexError
            else
              (let dx0 = x0 ! 1 - x0 ! 0;
                   dy0 = y0 ! 1 - y0 ! 0;
                   x1 = (if Nx' = 1 \<and> Ny' > 1 then [0] else x0);
                   dx1 = (if Nx' = 1 \<and> Ny' > 1 then dy0 else dx0);
                   y1 = (if Ny' = 1 \<and> Nx' > 1 then [0] else y0);
                   dy1 = (if Ny' = 1 \<and> Nx' > 1 then dx1 else dy0)
               in case fftfreq Nx' dx1 of
                    Inl e \<Rightarrow> Inl e
                  | Inr fx \<Rightarrow>
                      (case fftfreq Ny' dy1 of
                         Inl e \<Rightarrow> Inl e
                       | Inr fy \<Rightarrow>
                           (let kx' = map (\<lambda>f. 2 * pi * f) fx;
                                ky' = map (\<lambda>f. 2 * pi * f) fy;
                                r' = concat (outer (\<lambda>a b. sqrt (a ^ 2 + b ^ 2)) x1 y1);
                                kr' = concat (outer (\<lambda>a b. sqrt (a ^ 2 + b ^ 2)) kx' ky')
                            in Inr (self\<lparr> Lx := Lx', Ly := Ly', Nx := Nx', Ny := Ny',
                                          self_x := x1, self_y := y1, self_r := r', Nr := length r',
                                          kr := kr', kr2 := map (\<lambda>k. k ^ 2) kr',
                                          kx := kx', ky := ky' \<rparr>))))))"

section \<open>Backend operations\<close>

text \<open>
  Modelled from the spec: the backend module is not part of \<^verbatim>\<open>lib.py\<close>. The spec
  (section 6) lists \<^verbatim>\<open>to_device\<close> and \<^verbatim>\<open>to_host\<close> as memory transfers,
  \<^verbatim>\<open>zeros\<close> as the allocation of a zero buffer, \<^verbatim>\<open>exp\<close>, \<^verbatim>\<open>sqrt\<close> and
  \<^verbatim>\<open>abs\<close> as elementwise functions, \<^verbatim>\<open>make_matmul\<close> as returning the bound
  matrix product \<^verbatim>\<open>(matrix, in, out) -> out\<close> and \<^verbatim>\<open>make_fft2\<close> as returning
  the forward and inverse two-dimensional discrete Fourier transforms. A transfer gives
  the device its own copy of the data, so device buffers are values of the propagator's
  state and share nothing with the caller's arrays.
\<close>

definition zeros :: "nat \<Rightarrow> complex list" where
  "zeros n = replicate n 0"

text \<open>
  An in-place elementwise operation \<^verbatim>\<open>a op= b\<close>: numpy accepts \<open>b\<close> of the shape of
  \<open>a\<close>, or a single element that it broadcasts; any other shape raises.
\<close>

definition inplace ::
  "(complex \<Rightarrow> complex \<Rightarrow> complex) \<Rightarrow> complex list \<Rightarrow> complex list \<Rightarrow> error + complex list" where
  "inplace f a b =
     (if length b = length a then Inr (map2 f a b)
      else if length b = 1 then Inr (map (\<lambda>v. f v (hd b)) a)
      else Inl ValueError)"

text \<open>
  Modelled from the spec: the product of a matrix with a vector, \<^verbatim>\<open>make_matmul\<close>'s
  callable. The matrix rows must have the vector's length.
\<close>

definition matvec :: "complex list list \<Rightarrow> complex list \<Rightarrow> complex list" where
  "matvec M v = map (\<lambda>row. sum_list (map2 (*) row v)) M"

definition matmul :: "complex list list \<Rightarrow> complex list \<Rightarrow> error + complex list" where
  "matmul M v =
     (if list_all (\<lambda>row. length row = length v) M then Inr (matvec M v)
      else Inl ValueError)"

text \<open>
  Modelled from the spec: \<^verbatim>\<open>make_fft2\<close>'s pair, the two-dimensional discrete Fourier
  transform of an \<^verbatim>\<open>(nx, ny)\<close> array and its inverse, in the convention of
  \<^verbatim>\<open>numpy.fft\<close> (the forward sum is not scaled, the inverse is divided by
  \<^verbatim>\<open>nx * ny\<close>). The entry \<open>[p, q]\<close> of an array is at the place \<open>p * ny + q\<close> of its
  data, so \<open>n div ny\<close> and \<open>n mod ny\<close> are the two indices of the place \<open>n\<close>.
\<close>

definition twiddle :: "nat \<Rightarrow> nat \<Rightarrow> nat \<Rightarrow> complex" where
  "twiddle n p k = cis (2 * pi * real (p * k) / real n)"

definition dft2 :: "nat \<Rightarrow> nat \<Rightarrow> complex list \<Rightarrow> complex list" where
  "dft2 nx ny v =
     map (\<lambda>m. sum_list (map (\<lambda>n.
            v ! n * cnj (twiddle nx (n div ny) (m div ny)) * cnj (twiddle ny (n mod ny) (m mod ny)))
          [0..<nx * ny]))
       [0..<nx * ny]"

definition idft2 :: "nat \<Rightarrow> nat \<Rightarrow> complex list \<Rightarrow> complex list" where
  "idft2 nx ny v =
     map (\<lambda>n. sum_list (map (\<lambda>m.
            v ! m * twiddle nx (n div ny) (m div ny) * twiddle ny (n mod ny) (m mod ny))
          [0..<nx * ny]) / of_nat (nx * ny))
       [0..<nx * ny]"

definition fft2 :: "nat \<Rightarrow> nat \<Rightarrow> complex list \<Rightarrow> error + complex list" where
  "fft2 nx ny v = (if length v \<noteq> nx * ny then Inl ValueError else Inr (dft2 nx ny v))"

definition ifft2 :: "nat \<Rightarrow> nat \<Rightarrow> complex list \<Rightarrow> error + complex list" where
  "ifft2 nx ny v = (if length v \<noteq> nx * ny then Inl ValueError else Inr (idft2 nx ny v))"

section \<open>Statements and their sequencing\<close>

text \<open>
  A statement takes the state and returns an exception or a value, with the state at
  that point. \<open>seq\<close> runs statements in order and stops at the first exception;
  a \<^verbatim>\<open>for\<close> loop over \<^verbatim>\<open>range(n)\<close> is \<open>seq\<close> of its body at \<open>0, ..., n-1\<close>.
\<close>

fun seq :: "('s \<Rightarrow> (error + unit) \<times> 's) list \<Rightarrow> 's \<Rightarrow> (error + unit) \<times> 's" where
  "seq [] s = (Inr (), s)"
| "seq (f # fs) s =
     (case f s of
        (Inl e, s') \<Rightarrow> (Inl e, s')
      | (Inr _, s') \<Rightarrow> seq fs s')"

definition for_range :: "nat \<Rightarrow> (nat \<Rightarrow> 's \<Rightarrow> (error + unit) \<times> 's) \<Rightarrow> 's \<Rightarrow> (error + unit) \<times> 's" where
  "for_range n body = seq (map body [0..<n])"

section \<open>The three transforms\<close>

text \<open>\<^verbatim>\<open>PropagatorSymmetric.TST\<close> and \<^verbatim>\<open>iTST\<close>.\<close>

definition Symmetric_TST :: "propagator \<Rightarrow> (error + unit) \<times> propagator" where
  "Symmetric_TST self =
     (case inplace (/) (u_loc self) (map of_real (self_j self)) of
        Inl e \<Rightarrow> (Inl e, self)
      | Inr v \<Rightarrow>
          (if 0 \<in> set (self_j self) \<and> u_loc self \<noteq> [] then (Inl NonFinite, self)
           else
             (let self1 = self\<lparr> u_loc := v \<rparr>
              in case matmul (TM self1) (u_loc self1) of
                   Inl e \<Rightarrow> (Inl e, self1)
                 | Inr h \<Rightarrow> (Inr (), self1\<lparr> u_ht := h \<rparr>))))"

definition Symmetric_iTST :: "propagator \<Rightarrow> (error + unit) \<times> propagator" where
  "Symmetric_iTST self =
     (case matmul (take (Nr_new self) (TM self)) (u_ht self) of
        Inl e \<Rightarrow> (Inl e, self)
      | Inr v \<Rightarrow>
          (let self1 = self\<lparr> u_iht := v \<rparr>
           in case inplace (*) (u_iht self1) (map of_real (take (Nr_new self1) (self_j self1))) of
                Inl e \<Rightarrow> (Inl e, self1)
              | Inr w \<Rightarrow> (Inr (), self1\<lparr> u_iht := w \<rparr>)))"

text \<open>\<^verbatim>\<open>PropagatorResampling.TST\<close> and \<^verbatim>\<open>iTST\<close>.\<close>

definition Resampling_TST :: "propagator \<Rightarrow> (error + unit) \<times> propagator" where
  "Resampling_TST self =
     (case matmul (TM self) (u_loc self) of
        Inl e \<Rightarrow> (Inl e, self)
      | Inr h \<Rightarrow> (Inr (), self\<lparr> u_ht := h \<rparr>))"

definition Resampling_iTST :: "propagator \<Rightarrow> (error + unit) \<times> propagator" where
  "Resampling_iTST self =
     (case matmul (invTM self) (u_ht self) of
        Inl e \<Rightarrow> (Inl e, self)
      | Inr v \<Rightarrow> (Inr (), self\<lparr> u_iht := v \<rparr>))"

text \<open>\<^verbatim>\<open>PropagatorFFT2.TST\<close> and \<^verbatim>\<open>iTST\<close>.\<close>

definition FFT2_TST :: "propagator \<Rightarrow> (error + unit) \<times> propagator" where
  "FFT2_TST self =
     (case fft2 (Nx self) (Ny self) (u_loc self) of
        Inl e \<Rightarrow> (Inl e, self)
      | Inr h \<Rightarrow> (Inr (), self\<lparr> u_ht := h \<rparr>))"

definition FFT2_iTST :: "propagator \<Rightarrow> (error + unit) \<times> propagator" where
  "FFT2_iTST self =
     (case ifft2 (Nx self) (Ny self) (u_ht self) of
        Inl e \<Rightarrow> (Inl e, self)
      | Inr v \<Rightarrow> (Inr (), self\<lparr> u_iht := v \<rparr>))"

text \<open>\<^verbatim>\<open>self.TST()\<close> and \<^verbatim>\<open>self.iTST()\<close>: the method of the object's class.\<close>

definition TST :: "propagator \<Rightarrow> (error + unit) \<times> propagator" where
  "TST self =
     (case kind self of
        Symmetric \<Rightarrow> Symmetric_TST self
      | Resampling \<Rightarrow> Resampling_TST self
      | FFT2 \<Rightarrow> FFT2_TST self)"

definition iTST :: "propagator \<Rightarrow> (error + unit) \<times> propagator" where
  "iTST self =
     (case kind self of
        Symmetric \<Rightarrow> Symmetric_iTST self
      | Resampling \<Rightarrow> Resampling_iTST self
      | FFT2 \<Rightarrow> FFT2_iTST self)"

section \<open>Constructors\<close>

text \<open>
  \<^verbatim>\<open>PropagatorSymmetric.init_TST\<close>: the scale vector \<^verbatim>\<open>_j\<close> (here \<open>self_j\<close>), the
  matrix \<^verbatim>\<open>TM\<close> and the buffers.
\<close>

definition PropagatorSymmetric_init_TST :: "externals \<Rightarrow> propagator \<Rightarrow> error + propagator" where
  "PropagatorSymmetric_init_TST ext self =
     (let m = mode self; al = alpha self; a1 = alpha_np1 self;
          denominator = (\<lambda>a b. a1 * \<bar>jn ext (m + 1) a * jn ext (m + 1) b\<bar>)
      in if al \<noteq> [] \<and> (Rmax self = 0 \<or> a1 = 0 \<or> (\<exists>a \<in> set al. \<exists>b \<in> set al. denominator a b = 0))
         then Inl NonFinite
         else Inr (self\<lparr>
           self_j := map (\<lambda>a. \<bar>jn ext (m + 1) a\<bar> / Rmax self) al,
           TM := outer (\<lambda>a b. of_real (2 * jn ext m (a * b / a1) / denominator a b)) al al,
           shape_trns := [Nr self],
           shape_trns_new := [Nr_new self],
           u_loc := zeros (Nr self),
           u_ht := zeros (Nr self),
           u_iht := zeros (Nr_new self) \<rparr>))"

text \<open>
  The truncated output grid of \<^verbatim>\<open>PropagatorSymmetric.__init__\<close>. Its second
  branch reads the name \<^verbatim>\<open>sel\<close>, which is bound nowhere.
\<close>

definition PropagatorSymmetric_truncation :: "propagator \<Rightarrow> nat option \<Rightarrow> error + propagator" where
  "PropagatorSymmetric_truncation self Nr_new' =
     (case Nr_new' of
        None \<Rightarrow> Inr (self\<lparr> Nr_new := Nr self, r_new := self_r self, Rmax_new := Rmax self \<rparr>)
      | Some n \<Rightarrow>
          if n \<ge> Nr self then Inl NameError
          else
            (let self1 = self\<lparr> Nr_new := n, r_new := take n (self_r self) \<rparr>
             in if r_new self1 = [] then Inl ValueError
                else if \<not> n < length (alpha self1) then Inl IndexError
                else if alpha self1 ! (n - 1) = 0 then Inl NonFinite
                else Inr (self1\<lparr> Rmax_new :=
                       Max (set (r_new self1)) * alpha self1 ! n / alpha self1 ! (n - 1) \<rparr>)))"

definition PropagatorSymmetric ::
  "externals \<Rightarrow> real \<times> nat \<Rightarrow> kz_axis \<Rightarrow> nat option \<Rightarrow> int \<Rightarrow> dtype \<Rightarrow> string option
     \<Rightarrow> error + propagator" where
  "PropagatorSymmetric ext r_axis kz_axis' Nr_new' mode' dtype' backend =
     (case init_backend ext backend of
        Inl e \<Rightarrow> Inl e
      | Inr b \<Rightarrow>
          (let self0 = init_kz ((blank b)\<lparr> kind := Symmetric, dtype := dtype', mode := mode' \<rparr>) kz_axis'
           in case init_r_symmetric ext self0 r_axis of
                Inl e \<Rightarrow> Inl e
              | Inr (r', Rmax', Nr') \<Rightarrow>
                  (let self1 = self0\<lparr> self_r := r', Rmax := Rmax', Nr := Nr' \<rparr>
                   in case init_kr ext self1 (Rmax self1) (Nr self1) of
                        Inl e \<Rightarrow> Inl e
                      | Inr self2 \<Rightarrow>
                          (case PropagatorSymmetric_truncation self2 Nr_new' of
                             Inl e \<Rightarrow> Inl e
                           | Inr self3 \<Rightarrow> PropagatorSymmetric_init_TST ext self3))))"

text \<open>
  \<^verbatim>\<open>PropagatorResampling\<close>. The forward matrix is what the backend's inversion
  returns for \<^verbatim>\<open>jn(mode, r[:,None] * kr[None,:])\<close>.
\<close>

datatype r_axis = RTuple real nat | RArray "real list"




text \<open>\<^verbatim>\<open>PropagatorFFT2\<close>.\<close>

definition PropagatorFFT2_init_TST :: "propagator \<Rightarrow> propagator" where
  "PropagatorFFT2_init_TST self =
     self\<lparr> Nr_new := Nr self,
           shape_trns := [Nx self, Ny self],
           shape_trns_new := [Nx self, Ny self],
           u_loc := zeros (Nx self * Ny self),
           u_ht := zeros (Nx self * Ny self),
           u_iht := zeros (Nx self * Ny self) \<rparr>"

definition PropagatorFFT2 ::
  "externals \<Rightarrow> real \<times> nat \<Rightarrow> real \<times> nat \<Rightarrow> kz_axis \<Rightarrow> dtype \<Rightarrow> string option
     \<Rightarrow> error + propagator" where
  "PropagatorFFT2 ext x_axis y_axis kz_axis' dtype' backend =
     (case init_backend ext backend of
        Inl e \<Rightarrow> Inl e
      | Inr b \<Rightarrow>
          (case init_xykxy_fft2 (init_kz ((blank b)\<lparr> kind := FFT2, dtype := dtype' \<rparr>) kz_axis')
                  x_axis y_axis of
             Inl e \<Rightarrow> Inl e
           | Inr self1 \<Rightarrow> Inr (PropagatorFFT2_init_TST self1)))"

section \<open>Host arrays\<close>

text \<open>
  The arrays of the caller live in host memory: \<open>cells\<close> gives the array at an
  address, the addresses below \<open>top\<close> are in use. \<^verbatim>\<open>step\<close> is modelled over
  this memory because its result is, depending on \<^verbatim>\<open>overwrite\<close>, a new array or
  the caller's own. The other entry points only read their field argument and build their
  result themselves, so they take and return arrays as values.
\<close>

record heap =
  cells :: "nat \<Rightarrow> ndarray"
  top :: nat

definition alloc :: "heap \<Rightarrow> ndarray \<Rightarrow> nat \<times> heap" where
  "alloc h a = (top h, h\<lparr> cells := (cells h)(top h := a), top := Suc (top h) \<rparr>)"

text \<open>
  \<^verbatim>\<open>np.empty((n, *shape), dtype)\<close> and \<^verbatim>\<open>np.zeros_like(u)\<close>. The entries of an
  empty array are whatever the memory held; the model takes zeros for them.
\<close>

definition np_empty :: "nat \<Rightarrow> nat list \<Rightarrow> dtype \<Rightarrow> ndarray" where
  "np_empty n shape dt = \<lparr> adtype = dt, data = replicate n (zeros (prod_list shape)) \<rparr>"

definition np_empty3 :: "nat \<Rightarrow> nat \<Rightarrow> nat list \<Rightarrow> dtype \<Rightarrow> ndarray3" where
  "np_empty3 m n shape dt =
     \<lparr> adtype = dt, data = replicate m (replicate n (zeros (prod_list shape))) \<rparr>"

definition zeros_like :: "ndarray \<Rightarrow> ndarray" where
  "zeros_like u = \<lparr> adtype = adtype u, data = map (\<lambda>row. zeros (length row)) (data u) \<rparr>"

text \<open>\<^verbatim>\<open>u[ikz, :]\<close> and the assignments \<^verbatim>\<open>a[ikz] = v\<close>, \<^verbatim>\<open>a[i, ikz, :] = v\<close>.\<close>

definition getitem :: "'a list \<Rightarrow> nat \<Rightarrow> error + 'a" where
  "getitem rows i = (if i < length rows then Inr (rows ! i) else Inl IndexError)"

definition fit :: "complex list \<Rightarrow> complex list \<Rightarrow> error + complex list" where
  "fit old v =
     (if length v = length old then Inr v
      else if length v = 1 then Inr (map (\<lambda>_. hd v) old)
      else Inl ValueError)"

definition setitem :: "complex list list \<Rightarrow> nat \<Rightarrow> complex list \<Rightarrow> error + complex list list" where
  "setitem rows i v =
     (if \<not> i < length rows then Inl IndexError
      else case fit (rows ! i) v of
             Inl e \<Rightarrow> Inl e
           | Inr w \<Rightarrow> Inr (rows[i := w]))"

definition setitem3 ::
  "complex list list list \<Rightarrow> nat \<Rightarrow> nat \<Rightarrow> complex list \<Rightarrow> error + complex list list list" where
  "setitem3 planes i k v =
     (if \<not> i < length planes then Inl IndexError
      else case setitem (planes ! i) k v of
             Inl e \<Rightarrow> Inl e
           | Inr pl \<Rightarrow> Inr (planes[i := pl]))"

section \<open>The stepping engine (class PropagatorCommon)\<close>

text \<open>
  The statements of the loops act on the propagator and on what the call holds besides
  it (the host memory, or the array being filled). \<open>on_self\<close> runs a statement of the
  propagator alone. The progress bar and the printed messages are left out.
\<close>

definition on_self ::
  "(propagator \<Rightarrow> (error + unit) \<times> propagator) \<Rightarrow> propagator \<times> 'x \<Rightarrow> (error + unit) \<times> (propagator \<times> 'x)" where
  "on_self f s = (case f (fst s) of (res, self') \<Rightarrow> (res, (self', snd s)))"

text \<open>\<^verbatim>\<open>self.u_loc = self.bcknd.to_device(u[ikz,:])\<close>\<close>

definition set_u_loc :: "error + complex list \<Rightarrow> propagator \<Rightarrow> (error + unit) \<times> propagator" where
  "set_u_loc row self =
     (case row of
        Inl e \<Rightarrow> (Inl e, self)
      | Inr v \<Rightarrow> (Inr (), self\<lparr> u_loc := v \<rparr>))"

text \<open>
  The phase of \<^verbatim>\<open>step\<close> and of \<^verbatim>\<open>initiate_stepping\<close>:
  \<^verbatim>\<open>phase_loc = self.kz[ikz]**2 - self.kr2\<close>, then
  \<^verbatim>\<open>sqrt((phase_loc>=0.)*phase_loc)\<close>.
\<close>

definition clamped_phase :: "propagator \<Rightarrow> nat \<Rightarrow> error + real list" where
  "clamped_phase self ikz =
     (if \<not> ikz < length (kz self) then Inl IndexError
      else
        (let phase0 = map (\<lambda>k2. (kz self ! ikz) ^ 2 - k2) (kr2 self)
         in Inr (map (\<lambda>ph. sqrt ((if ph \<ge> 0 then 1 else 0) * ph)) phase0)))"

text \<open>
  The phase of \<^verbatim>\<open>steps\<close> and of \<^verbatim>\<open>get_Ez\<close>:
  \<^verbatim>\<open>sqrt(abs(self.kz[ikz]**2 - self.kr2))\<close>.
\<close>

definition abs_phase :: "propagator \<Rightarrow> nat \<Rightarrow> error + real list" where
  "abs_phase self ikz =
     (if \<not> ikz < length (kz self) then Inl IndexError
      else Inr (map (\<lambda>k2. sqrt \<bar>(kz self ! ikz) ^ 2 - k2\<bar>) (kr2 self)))"

text \<open>\<^verbatim>\<open>self.u_ht *= self.bcknd.exp(1j * dz * phase)\<close>\<close>

definition mul_u_ht :: "real \<Rightarrow> error + real list \<Rightarrow> propagator \<Rightarrow> (error + unit) \<times> propagator" where
  "mul_u_ht dz phase self =
     (case phase of
        Inl e \<Rightarrow> (Inl e, self)
      | Inr ph \<Rightarrow>
          (case inplace (*) (u_ht self) (map (\<lambda>p. exp (\<i> * of_real dz * of_real p)) ph) of
             Inl e \<Rightarrow> (Inl e, self)
           | Inr v \<Rightarrow> (Inr (), self\<lparr> u_ht := v \<rparr>)))"

subsection \<open>step\<close>

text \<open>The last statement of the loop body, \<^verbatim>\<open>u_step[ikz] = to_host(self.u_iht)\<close>.\<close>

definition store_row :: "nat \<Rightarrow> nat \<Rightarrow> propagator \<times> heap \<Rightarrow> (error + unit) \<times> (propagator \<times> heap)" where
  "store_row u_step ikz s =
     (case s of (self, h) \<Rightarrow>
        (case setitem (data (cells h u_step)) ikz (u_iht self) of
           Inl e \<Rightarrow> (Inl e, s)
         | Inr rows \<Rightarrow>
             (Inr (), (self, h\<lparr> cells := (cells h)(u_step := (cells h u_step)\<lparr> data := rows \<rparr>) \<rparr>))))"

definition step_body ::
  "nat \<Rightarrow> nat \<Rightarrow> real \<Rightarrow> nat \<Rightarrow> propagator \<times> heap \<Rightarrow> (error + unit) \<times> (propagator \<times> heap)" where
  "step_body u u_step dz ikz =
     seq [ (\<lambda>s. on_self (set_u_loc (getitem (data (cells (snd s) u)) ikz)) s),
           on_self TST,
           (\<lambda>s. on_self (mul_u_ht dz (clamped_phase (fst s) ikz)) s),
           on_self iTST,
           store_row u_step ikz ]"

definition step ::
  "propagator \<Rightarrow> heap \<Rightarrow> nat \<Rightarrow> real \<Rightarrow> bool \<Rightarrow> (error + nat) \<times> propagator \<times> heap" where
  "step self h u dz overwrite =
     (if adtype (cells h u) \<noteq> dtype self then (Inl AssertionError, self, h)
      else
        (let (u_step, h1) =
               (if \<not> overwrite
                then alloc h (np_empty (Nkz self) (shape_trns_new self) (adtype (cells h u)))
                else (u, h))
         in case for_range (Nkz self) (step_body u u_step dz) (self, h1) of
              (Inl e, s) \<Rightarrow> (Inl e, s)
            | (Inr _, s) \<Rightarrow> (Inr u_step, s)))"

subsection \<open>steps\<close>

definition steps_inner ::
  "real list \<Rightarrow> error + real list \<Rightarrow> nat \<Rightarrow> nat \<Rightarrow> propagator \<times> ndarray3
     \<Rightarrow> (error + unit) \<times> (propagator \<times> ndarray3)" where
  "steps_inner dz ik_loc ikz i_step =
     seq [ on_self (mul_u_ht (dz ! i_step) ik_loc),
           on_self iTST,
           (\<lambda>s. case setitem3 (data (snd s)) i_step ikz (u_iht (fst s)) of
                   Inl e \<Rightarrow> (Inl e, s)
                 | Inr planes \<Rightarrow> (Inr (), (fst s, (snd s)\<lparr> data := planes \<rparr>))) ]"

definition steps_body ::
  "ndarray \<Rightarrow> real list \<Rightarrow> nat \<Rightarrow> propagator \<times> ndarray3 \<Rightarrow> (error + unit) \<times> (propagator \<times> ndarray3)" where
  "steps_body u dz ikz =
     seq [ on_self (set_u_loc (getitem (data u) ikz)),
           on_self TST,
           (\<lambda>s. for_range (length dz) (steps_inner dz (abs_phase (fst s) ikz) ikz) s) ]"

text \<open>\<^verbatim>\<open>np.r_[z_axis[0], np.diff(z_axis)]\<close>\<close>

definition dz_of_z_axis :: "real list \<Rightarrow> error + real list" where
  "dz_of_z_axis z_axis =
     (if z_axis = [] then Inl IndexError
      else Inr (hd z_axis # map2 (-) (tl z_axis) (butlast z_axis)))"

definition steps ::
  "propagator \<Rightarrow> ndarray \<Rightarrow> real list option \<Rightarrow> real list option
     \<Rightarrow> (error + ndarray3 option) \<times> propagator" where
  "steps self u dz z_axis =
     (if adtype u \<noteq> dtype self then (Inl AssertionError, self)
      else
        (case (case z_axis of
                 Some zs \<Rightarrow> dz_of_z_axis zs
               | None \<Rightarrow> (case dz of None \<Rightarrow> Inl TypeError | Some ds \<Rightarrow> Inr ds)) of
           Inl e \<Rightarrow> (Inl e, self)
         | Inr ds \<Rightarrow>
             (let Nsteps = length ds
              in if Nsteps = 0 then (Inr None, self)
                 else
                   (let u_steps = np_empty3 Nsteps (Nkz self) (shape_trns_new self) (adtype u)
                    in case for_range (Nkz self) (steps_body u ds) (self, u_steps) of
                         (Inl e, s) \<Rightarrow> (Inl e, fst s)
                       | (Inr _, s) \<Rightarrow> (Inr (Some (snd s)), fst s)))))"

subsection \<open>The stepping session\<close>

text \<open>
  \<^verbatim>\<open>self.stepping_image[ikz] = self.u_ht.copy()\<close> and
  \<^verbatim>\<open>self.phase_loc[ikz] = sqrt(...)\<close>: assignments into a row of an attribute.
\<close>

definition set_stepping_image :: "nat \<Rightarrow> propagator \<Rightarrow> (error + unit) \<times> propagator" where
  "set_stepping_image ikz self =
     (case stepping_image self of
        None \<Rightarrow> (Inl AttributeError, self)
      | Some img \<Rightarrow>
          (case setitem img ikz (u_ht self) of
             Inl e \<Rightarrow> (Inl e, self)
           | Inr img' \<Rightarrow> (Inr (), self\<lparr> stepping_image := Some img' \<rparr>)))"

definition set_phase_loc :: "nat \<Rightarrow> propagator \<Rightarrow> (error + unit) \<times> propagator" where
  "set_phase_loc ikz self =
     (case clamped_phase self ikz of
        Inl e \<Rightarrow> (Inl e, self)
      | Inr ph \<Rightarrow>
          (case phase_loc self of
             None \<Rightarrow> (Inl AttributeError, self)
           | Some pl \<Rightarrow>
               (case setitem pl ikz (map of_real ph) of
                  Inl e \<Rightarrow> (Inl e, self)
                | Inr pl' \<Rightarrow> (Inr (), self\<lparr> phase_loc := Some pl' \<rparr>))))"

definition initiate_stepping_body :: "ndarray \<Rightarrow> nat \<Rightarrow> propagator \<Rightarrow> (error + unit) \<times> propagator" where
  "initiate_stepping_body u ikz =
     seq [ set_u_loc (getitem (data u) ikz),
           TST,
           set_stepping_image ikz,
           set_phase_loc ikz ]"

definition initiate_stepping :: "propagator \<Rightarrow> ndarray \<Rightarrow> (error + unit) \<times> propagator" where
  "initiate_stepping self u =
     (if adtype u \<noteq> dtype self then (Inl AssertionError, self)
      else
        for_range (Nkz self) (initiate_stepping_body u)
          (self\<lparr> stepping_image := Some (data (zeros_like u)),
                 phase_loc := Some (data (zeros_like u)),
                 z_propagation := Some 0 \<rparr>))"

text \<open>
  \<^verbatim>\<open>self.stepping_image[ikz] *= exp(1j * dz * self.phase_loc[ikz])\<close>, then
  \<^verbatim>\<open>self.u_ht = self.stepping_image[ikz].copy()\<close>.
\<close>

definition advance_image :: "real \<Rightarrow> nat \<Rightarrow> propagator \<Rightarrow> (error + unit) \<times> propagator" where
  "advance_image dz ikz self =
     (case stepping_image self of
        None \<Rightarrow> (Inl AttributeError, self)
      | Some img \<Rightarrow>
          (case getitem img ikz of
             Inl e \<Rightarrow> (Inl e, self)
           | Inr row \<Rightarrow>
               (case phase_loc self of
                  None \<Rightarrow> (Inl AttributeError, self)
                | Some pl \<Rightarrow>
                    (case getitem pl ikz of
                       Inl e \<Rightarrow> (Inl e, self)
                     | Inr ph \<Rightarrow>
                         (case inplace (*) row (map (\<lambda>p. exp (\<i> * of_real dz * p)) ph) of
                            Inl e \<Rightarrow> (Inl e, self)
                          | Inr row' \<Rightarrow>
                              (Inr (), self\<lparr> stepping_image := Some (img[ikz := row']),
                                              u_ht := row' \<rparr>))))))"

definition stepping_body ::
  "real \<Rightarrow> nat \<Rightarrow> propagator \<times> ndarray \<Rightarrow> (error + unit) \<times> (propagator \<times> ndarray)" where
  "stepping_body dz ikz =
     seq [ on_self (advance_image dz ikz),
           on_self iTST,
           (\<lambda>s. case setitem (data (snd s)) ikz (u_iht (fst s)) of
                   Inl e \<Rightarrow> (Inl e, s)
                 | Inr rows \<Rightarrow> (Inr (), (fst s, (snd s)\<lparr> data := rows \<rparr>))) ]"

definition stepping ::
  "propagator \<Rightarrow> real \<Rightarrow> ndarray option \<Rightarrow> (error + ndarray) \<times> propagator" where
  "stepping self dz u_out =
     (let u_out1 = (case u_out of
                      None \<Rightarrow> np_empty (Nkz self) (shape_trns_new self) (dtype self)
                    | Some a \<Rightarrow> a)
      in case for_range (Nkz self) (stepping_body dz) (self, u_out1) of
           (Inl e, s) \<Rightarrow> (Inl e, fst s)
         | (Inr _, s) \<Rightarrow>
             (case z_propagation (fst s) of
                None \<Rightarrow> (Inl AttributeError, fst s)
              | Some z \<Rightarrow> (Inr (snd s), (fst s)\<lparr> z_propagation := Some (z + dz) \<rparr>)))"

text \<open>
  A stepping session: after \<^verbatim>\<open>initiate_stepping(u)\<close>, one call
  \<^verbatim>\<open>stepping(d)\<close> for each increment of the schedule, collecting the returned arrays.
\<close>

fun stepping_calls :: "propagator \<Rightarrow> real list \<Rightarrow> (error + ndarray list) \<times> propagator" where
  "stepping_calls self [] = (Inr [], self)"
| "stepping_calls self (d # ds) =
     (case stepping self d None of
        (Inl e, self') \<Rightarrow> (Inl e, self')
      | (Inr out, self') \<Rightarrow>
          (case stepping_calls self' ds of
             (Inl e, self'') \<Rightarrow> (Inl e, self'')
           | (Inr outs, self'') \<Rightarrow> (Inr (out # outs), self'')))"

definition stepping_session ::
  "propagator \<Rightarrow> ndarray \<Rightarrow> real list \<Rightarrow> (error + ndarray list) \<times> propagator" where
  "stepping_session self u ds =
     (case initiate_stepping self u of
        (Inl e, self') \<Rightarrow> (Inl e, self')
      | (Inr _, self') \<Rightarrow> stepping_calls self' ds)"

subsection \<open>The longitudinal field\<close>

text \<open>
  \<^verbatim>\<open>self.u_ht *= - kx_2d / kz_loc\<close>, with
  \<^verbatim>\<open>kx_2d = self.kx[:,None] * np.ones_like(self.ky[None,:])\<close>. Only the Cartesian
  propagator has the attributes \<^verbatim>\<open>kx\<close> and \<^verbatim>\<open>ky\<close>.
\<close>

definition get_Ez_factor :: "nat \<Rightarrow> propagator \<Rightarrow> (error + unit) \<times> propagator" where
  "get_Ez_factor ikz self =
     (case abs_phase self ikz of
        Inl e \<Rightarrow> (Inl e, self)
      | Inr kz_loc \<Rightarrow>
          (let kx_2d = concat (outer (\<lambda>a b. a * 1) (kx self) (ky self))
           in if length kz_loc \<noteq> length kx_2d then (Inl ValueError, self)
              else if 0 \<in> set kz_loc then (Inl NonFinite, self)
              else
                (case inplace (*) (u_ht self) (map2 (\<lambda>a b. of_real (- a / b)) kx_2d kz_loc) of
                   Inl e \<Rightarrow> (Inl e, self)
                 | Inr v \<Rightarrow> (Inr (), self\<lparr> u_ht := v \<rparr>))))"

definition get_Ez_body ::
  "ndarray \<Rightarrow> nat \<Rightarrow> propagator \<times> ndarray \<Rightarrow> (error + unit) \<times> (propagator \<times> ndarray)" where
  "get_Ez_body ux ikz =
     seq [ on_self (set_u_loc (getitem (data ux) ikz)),
           on_self TST,
           on_self (get_Ez_factor ikz),
           on_self iTST,
           (\<lambda>s. case setitem (data (snd s)) ikz (u_iht (fst s)) of
                   Inl e \<Rightarrow> (Inl e, s)
                 | Inr rows \<Rightarrow> (Inr (), (fst s, (snd s)\<lparr> data := rows \<rparr>))) ]"

definition get_Ez :: "propagator \<Rightarrow> ndarray \<Rightarrow> (error + ndarray) \<times> propagator" where
  "get_Ez self ux =
     (if kind self \<noteq> FFT2 then (Inl AttributeError, self)
      else
        (case for_range (Nkz self) (get_Ez_body ux) (self, zeros_like ux) of
           (Inl e, s) \<Rightarrow> (Inl e, fst s)
         | (Inr _, s) \<Rightarrow> (Inr (snd s), fst s)))"

section \<open>Concrete inputs\<close>

text \<open>
  The values at which instances below are evaluated. \<open>jn_series\<close> is the power series
  of the Bessel function of the first kind, which \<^verbatim>\<open>scipy.special.jn\<close> computes;
  \<open>sample_externals\<close> gives \<open>bessel_zeros\<close> by the first zeros of \<open>J\<^sub>0\<close> and
  \<open>J\<^sub>1\<close> rounded to four decimals, and one registered backend.
\<close>

definition jn_series :: "int \<Rightarrow> real \<Rightarrow> real" where
  "jn_series n v =
     (\<Sum>k. (- 1) ^ k / (fact k * fact (k + nat n)) * (v / 2) ^ (2 * k + nat n))"

definition numpy_backend :: backend where
  "numpy_backend =
     \<lparr> name = ''NP'', inv_sqr_on_host = (\<lambda>M. Inl ValueError), inv_on_host = (\<lambda>M. Inl ValueError) \<rparr>"

definition sample_externals :: externals where
  "sample_externals =
     \<lparr> AVAILABLE_BACKENDS = [(''NP'', numpy_backend)],
       backend_strings_ordered = [''CU'', ''CL'', ''NP''],
       AXIPROP_BACKEND = None,
       jn = jn_series,
       bessel_zeros = (\<lambda>m n. take n (if m = 0 then [24048 / 10000, 55201 / 10000, 86537 / 10000]
                                  else [38317 / 10000, 70156 / 10000, 101735 / 10000])) \<rparr>"

section \<open>Shapes and the values of the transforms\<close>

text \<open>
  The size of one slice before and after the transforms, and the shapes that the three
  constructors give to the matrices, the scale vector and the spectral grid. The scale
  vector of a well-formed symmetric propagator has no zero entry, so that the forward
  transform divides by none.
\<close>

definition in_size :: "propagator \<Rightarrow> nat" where
  "in_size self = (case kind self of FFT2 \<Rightarrow> Nx self * Ny self | _ \<Rightarrow> Nr self)"

definition out_size :: "propagator \<Rightarrow> nat" where
  "out_size self = (case kind self of FFT2 \<Rightarrow> Nx self * Ny self | _ \<Rightarrow> Nr_new self)"

definition well_formed :: "propagator \<Rightarrow> bool" where
  "well_formed self =
     (length (kz self) = Nkz self \<and>
      length (kr2 self) = in_size self \<and>
      prod_list (shape_trns_new self) = out_size self \<and>
      (case kind self of
         Symmetric \<Rightarrow>
           length (self_j self) = Nr self \<and> 0 \<notin> set (self_j self) \<and>
           length (TM self) = Nr self \<and> list_all (\<lambda>row. length row = Nr self) (TM self) \<and>
           Nr_new self \<le> Nr self
       | Resampling \<Rightarrow>
           length (TM self) = Nr self \<and> list_all (\<lambda>row. length row = Nr self) (TM self) \<and>
           length (invTM self) = Nr_new self \<and>
           list_all (\<lambda>row. length row = Nr self) (invTM self)
       | FFT2 \<Rightarrow> True))"

text \<open>A field of the propagator's shape: at least \<open>Nkz\<close> slices, each of the input size.\<close>

definition field_of :: "propagator \<Rightarrow> ndarray \<Rightarrow> bool" where
  "field_of self u =
     (adtype u = dtype self \<and> Nkz self \<le> length (data u) \<and>
      list_all (\<lambda>row. length row = in_size self) (take (Nkz self) (data u)))"

text \<open>
  What \<^verbatim>\<open>TST\<close> leaves in \<^verbatim>\<open>u_ht\<close> for a slice \<open>v\<close> in \<^verbatim>\<open>u_loc\<close>, and what
  \<^verbatim>\<open>iTST\<close> leaves in \<^verbatim>\<open>u_iht\<close> for a spectrum \<open>h\<close> in \<^verbatim>\<open>u_ht\<close>.
\<close>

definition forward :: "propagator \<Rightarrow> complex list \<Rightarrow> complex list" where
  "forward self v =
     (case kind self of
        Symmetric \<Rightarrow> matvec (TM self) (map2 (/) v (map of_real (self_j self)))
      | Resampling \<Rightarrow> matvec (TM self) v
      | FFT2 \<Rightarrow> dft2 (Nx self) (Ny self) v)"

definition backward :: "propagator \<Rightarrow> complex list \<Rightarrow> complex list" where
  "backward self h =
     (case kind self of
        Symmetric \<Rightarrow> map2 (*) (matvec (take (Nr_new self) (TM self)) h)
                       (map of_real (take (Nr_new self) (self_j self)))
      | Resampling \<Rightarrow> matvec (invTM self) h
      | FFT2 \<Rightarrow> idft2 (Nx self) (Ny self) h)"

text \<open>The two phase rates of slice \<open>ikz\<close>, and the factors \<^verbatim>\<open>exp(1j * dz * phase)\<close>.\<close>

definition clamp_rate :: "propagator \<Rightarrow> nat \<Rightarrow> real list" where
  "clamp_rate self ikz =
     map (\<lambda>k2. sqrt ((if (kz self ! ikz) ^ 2 - k2 \<ge> 0 then 1 else 0) * ((kz self ! ikz) ^ 2 - k2)))
       (kr2 self)"

definition abs_rate :: "propagator \<Rightarrow> nat \<Rightarrow> real list" where
  "abs_rate self ikz = map (\<lambda>k2. sqrt \<bar>(kz self ! ikz) ^ 2 - k2\<bar>) (kr2 self)"

definition phase_factors :: "real \<Rightarrow> real list \<Rightarrow> complex list" where
  "phase_factors dz ph = map (\<lambda>p. exp (\<i> * of_real dz * of_real p)) ph"

text \<open>The slice that \<^verbatim>\<open>step\<close> writes for the input slice \<open>v\<close> at index \<open>ikz\<close>.\<close>

definition step_value :: "propagator \<Rightarrow> real \<Rightarrow> nat \<Rightarrow> complex list \<Rightarrow> complex list" where
  "step_value self dz ikz v =
     backward self (map2 (*) (forward self v) (phase_factors dz (clamp_rate self ikz)))"

text \<open>
  The propagator without the contents of its three working buffers and without the
  attributes of the stepping session: what the constructor has fixed.
\<close>

definition frozen :: "propagator \<Rightarrow> propagator" where
  "frozen self = self\<lparr> u_loc := [], u_ht := [], u_iht := [],
     stepping_image := None, phase_loc := None, z_propagation := None \<rparr>"

text \<open>
  \<^verbatim>\<open>a * u1 + b * u2\<close> on slices and on fields of one shape, as numpy computes it
  entry by entry.
\<close>

definition axpby :: "complex \<Rightarrow> complex list \<Rightarrow> complex \<Rightarrow> complex list \<Rightarrow> complex list" where
  "axpby a v b w = map2 (\<lambda>p q. a * p + b * q) v w"

definition axpby_field :: "complex \<Rightarrow> ndarray \<Rightarrow> complex \<Rightarrow> ndarray \<Rightarrow> ndarray" where
  "axpby_field a u1 b u2 =
     \<lparr> adtype = adtype u1, data = map2 (\<lambda>v w. axpby a v b w) (data u1) (data u2) \<rparr>"

text \<open>
  The spectrum of one slice after the increments \<open>ds\<close>: it is multiplied by the factors of
  every increment in turn.
\<close>

definition advance :: "real list \<Rightarrow> complex list \<Rightarrow> real list \<Rightarrow> complex list" where
  "advance rate h ds = foldl (\<lambda>g d. map2 (*) g (phase_factors d rate)) h ds"

text \<open>
  Two states of a call are in \<open>heap_frame us\<close> when the addresses in use are the same
  and every host array but the one at \<open>us\<close> is the same.
\<close>

definition heap_frame :: "nat \<Rightarrow> propagator \<times> heap \<Rightarrow> propagator \<times> heap \<Rightarrow> bool" where
  "heap_frame us s s' =
     (top (snd s') = top (snd s) \<and> (\<forall>a. a \<noteq> us \<longrightarrow> cells (snd s') a = cells (snd s) a))"

text \<open>
  A Cartesian propagator, as \<^verbatim>\<open>PropagatorFFT2((pi, 2), (pi, 2), (k0, 0., 1))\<close> builds
  it: one frequency \<open>kz = k0\<close> and the spectral grid \<open>kr2 = [0, 1, 1, 2]\<close>, whose last
  mode is evanescent for \<open>k0 = 1\<close>, while no mode is for \<open>k0 = 2\<close>. \<open>sample_field\<close> is a field for it, \<open>single_mode\<close> the field whose
  spectrum is that last mode alone, and \<open>sample_heap\<close> a host memory holding
  \<open>sample_field\<close> at address 0, \<open>single_mode\<close> at address 1 and
  \<^verbatim>\<open>2 * sample_field + 1j * single_mode\<close> at address 2.
\<close>

definition sample_fft2 :: "real \<Rightarrow> propagator" where
  "sample_fft2 k0 =
     (case PropagatorFFT2 sample_externals (pi, 2) (pi, 2) (KzTuple k0 0 1) Complex128 None of
        Inr self \<Rightarrow> self
      | Inl e \<Rightarrow> blank numpy_backend)"

definition sample_field :: ndarray where
  "sample_field = \<lparr> adtype = Complex128, data = [[1, 0, 0, 0]] \<rparr>"

definition single_mode :: ndarray where
  "single_mode = \<lparr> adtype = Complex128, data = [[1 / 4, - (1 / 4), - (1 / 4), 1 / 4]] \<rparr>"

definition sample_heap :: heap where
  "sample_heap =
     \<lparr> cells = (\<lambda>a. if a = 0 then sample_field
                     else if a = 1 then single_mode
                     else axpby_field 2 sample_field \<i> single_mode),
       top = 3 \<rparr>"

text \<open>
  A stepping session of the propagator \<open>self\<close> in which the cached spectrum of slice
  \<open>i\<close> is \<open>H i\<close>: the state \<open>s\<close> is \<open>self\<close> up to the buffers, and holds the cached
  spectra and the phase rates that \<^verbatim>\<open>initiate_stepping\<close> stored.
\<close>

definition session_state :: "propagator \<Rightarrow> (nat \<Rightarrow> complex list) \<Rightarrow> propagator \<Rightarrow> bool" where
  "session_state self H s =
     (frozen s = frozen self \<and>
      (\<exists>img pl z. stepping_image s = Some img \<and> phase_loc s = Some pl \<and> z_propagation s = Some z \<and>
         Nkz self \<le> length img \<and> Nkz self \<le> length pl \<and>
         (\<forall>i < Nkz self. img ! i = H i \<and> length (H i) = in_size self \<and>
                          pl ! i = map of_real (clamp_rate self i))))"

section \<open>Exact inversion, and radial instances\<close>










section \<open>Grid construction: theorems\<close>

lemma init_kr_Inr:
  assumes "init_kr ext self Rmax' Nr' = Inr self'"
  shows "mode self = 0 \<Longrightarrow> kr self' = map (\<lambda>a. a / Rmax') (butlast (bessel_zeros ext 0 (Nr' + 1)))"
    and "mode self = 0 \<Longrightarrow> alpha_np1 self' = last (bessel_zeros ext 0 (Nr' + 1))"
    and "mode self \<noteq> 0 \<Longrightarrow> 0 < Nr'"
    and "mode self \<noteq> 0 \<Longrightarrow>
           kr self' = map (\<lambda>a. a / Rmax') (butlast (0 # bessel_zeros ext (mode self) Nr'))"
    and "mode self \<noteq> 0 \<Longrightarrow> alpha_np1 self' = last (0 # bessel_zeros ext (mode self) Nr')"
  using assms by (auto simp: init_kr_def jn_zeros_def Let_def split: if_splits)

lemma init_r_symmetric_Inr:
  assumes "init_r_symmetric ext self (Rmax', Nr') = Inr (rr, Rm, n)"
  shows "rr = map (\<lambda>a. Rmax' * a / last (bessel_zeros ext (mode self) (Nr' + 1)))
                (butlast (bessel_zeros ext (mode self) (Nr' + 1)))"
  using assms by (auto simp: init_r_symmetric_def jn_zeros_def Let_def split: if_splits)

text \<open>
  With a mode other than 0 and no node, \<^verbatim>\<open>init_kr\<close> calls \<^verbatim>\<open>jn_zeros(mode, 0)\<close>,
  which raises.
\<close>

lemma init_kr_no_node:
  "mode self \<noteq> 0 \<Longrightarrow> init_kr ext self Rmax' 0 = Inl ValueError"
  by (simp add: init_kr_def jn_zeros_def)

text \<open>
  C5, as amended. Write \<open>z\<^sub>1, z\<^sub>2, ...\<close> for the positive roots of the Bessel function of
  the mode order, let \<^verbatim>\<open>jn_zeros(mode, n)\<close> return \<open>n\<close> of them, and let
  \<^verbatim>\<open>init_kr\<close> and \<^verbatim>\<open>init_r_symmetric\<close> both return. The symmetric radial grid is
  \<open>Rmax * z\<^sub>j / z\<^bsub>Nr+1\<^esub>\<close> for \<open>j = 1..Nr\<close>, for every mode. For mode 0 the spectral grid is
  \<open>z\<^sub>j / Rmax\<close> for \<open>j = 1..Nr\<close>, over the same roots, and \<^verbatim>\<open>alpha_np1\<close> is
  \<open>z\<^bsub>Nr+1\<^esub>\<close>. For any other mode there is at least one node (with none,
  \<^verbatim>\<open>jn_zeros(mode, 0)\<close> raises, \<open>init_kr_no_node\<close>), the spectral grid is 0 followed
  by \<open>z\<^sub>j / Rmax\<close> for \<open>j = 1..Nr-1\<close>, and \<^verbatim>\<open>alpha_np1\<close> is \<open>z\<^bsub>Nr\<^esub>\<close>.
\<close>

theorem spectral_radial_grid:
  assumes "init_kr ext self Rmax' Nr' = Inr self'"
    and "init_r_symmetric ext self (Rmax', Nr') = Inr (rr, Rm, n)"
    and "length (bessel_zeros ext (mode self) (Nr' + 1)) = Nr' + 1"
    and "length (bessel_zeros ext (mode self) Nr') = Nr'"
  shows "rr = map (\<lambda>a. Rmax' * a / last (bessel_zeros ext (mode self) (Nr' + 1)))
                 (take Nr' (bessel_zeros ext (mode self) (Nr' + 1)))
       \<and> (mode self = 0 \<longrightarrow>
            kr self' = map (\<lambda>a. a / Rmax') (take Nr' (bessel_zeros ext 0 (Nr' + 1)))
          \<and> alpha_np1 self' = last (bessel_zeros ext 0 (Nr' + 1)))
       \<and> (mode self \<noteq> 0 \<longrightarrow>
            1 \<le> Nr'
          \<and> kr self' = 0 # map (\<lambda>a. a / Rmax') (take (Nr' - 1) (bessel_zeros ext (mode self) Nr'))
          \<and> alpha_np1 self' = last (bessel_zeros ext (mode self) Nr'))"
proof -
  have "rr = map (\<lambda>a. Rmax' * a / last (bessel_zeros ext (mode self) (Nr' + 1)))
                 (take Nr' (bessel_zeros ext (mode self) (Nr' + 1)))"
    using init_r_symmetric_Inr[OF assms(2)] assms(3) by (simp add: butlast_conv_take)
  moreover have "mode self = 0 \<longrightarrow>
           kr self' = map (\<lambda>a. a / Rmax') (take Nr' (bessel_zeros ext 0 (Nr' + 1)))
         \<and> alpha_np1 self' = last (bessel_zeros ext 0 (Nr' + 1))"
    using init_kr_Inr(1,2)[OF assms(1)] assms(3) by (auto simp: butlast_conv_take)
  moreover have "mode self \<noteq> 0 \<longrightarrow>
           1 \<le> Nr'
         \<and> kr self' = 0 # map (\<lambda>a. a / Rmax') (take (Nr' - 1) (bessel_zeros ext (mode self) Nr'))
         \<and> alpha_np1 self' = last (bessel_zeros ext (mode self) Nr')"
  proof
    assume m: "mode self \<noteq> 0"
    have pos: "0 < Nr'" by (rule init_kr_Inr(3)[OF assms(1) m])
    then have ne: "bessel_zeros ext (mode self) Nr' \<noteq> []" using assms(4) by auto
    have "butlast (0 # bessel_zeros ext (mode self) Nr')
            = 0 # take (Nr' - 1) (bessel_zeros ext (mode self) Nr')"
      using pos assms(4) by (cases Nr') (simp_all add: butlast_conv_take)
    then have "kr self' = 0 # map (\<lambda>a. a / Rmax') (take (Nr' - 1) (bessel_zeros ext (mode self) Nr'))"
      using init_kr_Inr(4)[OF assms(1) m] by simp
    moreover have "alpha_np1 self' = last (bessel_zeros ext (mode self) Nr')"
      using init_kr_Inr(5)[OF assms(1) m] ne by simp
    ultimately show "1 \<le> Nr'
         \<and> kr self' = 0 # map (\<lambda>a. a / Rmax') (take (Nr' - 1) (bessel_zeros ext (mode self) Nr'))
         \<and> alpha_np1 self' = last (bessel_zeros ext (mode self) Nr')"
      using pos by simp
  qed
  ultimately show ?thesis by blast
qed

text \<open>The two grids at \<open>Rmax = 2\<close>, \<open>Nr = 2\<close>, for mode 0 and for mode 1.\<close>

lemma sample_init_kr:
  "init_kr sample_externals (blank numpy_backend) 2 2 =
     Inr ((blank numpy_backend)\<lparr> alpha_np1 := 86537 / 10000,
            alpha := [24048 / 10000, 55201 / 10000],
            kr := [24048 / 20000, 55201 / 20000],
            kr2 := [(24048 / 20000) ^ 2, (55201 / 20000) ^ 2] \<rparr>)"
  by (simp add: init_kr_def jn_zeros_def sample_externals_def blank_def Let_def)

lemma sample_init_r_symmetric:
  "init_r_symmetric sample_externals (blank numpy_backend) (2, 2) =
     Inr ([2 * (24048 / 10000) / (86537 / 10000), 2 * (55201 / 10000) / (86537 / 10000)], 2, 2)"
  by (simp add: init_r_symmetric_def jn_zeros_def sample_externals_def blank_def Let_def)

lemma sample_init_kr_mode_1:
  "init_kr sample_externals ((blank numpy_backend)\<lparr> mode := 1 \<rparr>) 2 2 =
     Inr ((blank numpy_backend)\<lparr> mode := 1, alpha_np1 := 70156 / 10000,
            alpha := [0, 38317 / 10000],
            kr := [0, 38317 / 20000],
            kr2 := [0, (38317 / 20000) ^ 2] \<rparr>)"
  by (simp add: init_kr_def jn_zeros_def sample_externals_def blank_def Let_def)

lemma sample_init_r_symmetric_mode_1:
  "init_r_symmetric sample_externals ((blank numpy_backend)\<lparr> mode := 1 \<rparr>) (2, 2) =
     Inr ([2 * (38317 / 10000) / (101735 / 10000), 2 * (70156 / 10000) / (101735 / 10000)], 2, 2)"
  by (simp add: init_r_symmetric_def jn_zeros_def sample_externals_def blank_def Let_def)

theorem spectral_radial_grid_witness:
  "init_kr sample_externals (blank numpy_backend) 2 2 =
     Inr ((blank numpy_backend)\<lparr> alpha_np1 := 86537 / 10000,
            alpha := [24048 / 10000, 55201 / 10000],
            kr := [24048 / 20000, 55201 / 20000],
            kr2 := [(24048 / 20000) ^ 2, (55201 / 20000) ^ 2] \<rparr>)
   \<and> [24048 / 20000, 55201 / 20000] =
       map (\<lambda>a. a / 2) (take 2 (bessel_zeros sample_externals 0 (2 + 1)))
   \<and> 86537 / 10000 = last (bessel_zeros sample_externals 0 (2 + 1))
   \<and> [2 * (24048 / 10000) / (86537 / 10000), 2 * (55201 / 10000) / (86537 / 10000)] =
       map (\<lambda>a. 2 * a / last (bessel_zeros sample_externals 0 (2 + 1)))
         (take 2 (bessel_zeros sample_externals 0 (2 + 1)))
   \<and> init_kr sample_externals ((blank numpy_backend)\<lparr> mode := 1 \<rparr>) 2 2 =
     Inr ((blank numpy_backend)\<lparr> mode := 1, alpha_np1 := 70156 / 10000,
            alpha := [0, 38317 / 10000],
            kr := [0, 38317 / 20000],
            kr2 := [0, (38317 / 20000) ^ 2] \<rparr>)
   \<and> [0, 38317 / 20000] =
       0 # map (\<lambda>a. a / 2) (take (2 - 1) (bessel_zeros sample_externals 1 2))
   \<and> 70156 / 10000 = last (bessel_zeros sample_externals 1 2)
   \<and> [2 * (38317 / 10000) / (101735 / 10000), 2 * (70156 / 10000) / (101735 / 10000)] =
       map (\<lambda>a. 2 * a / last (bessel_zeros sample_externals 1 (2 + 1)))
         (take 2 (bessel_zeros sample_externals 1 (2 + 1)))"
  using spectral_radial_grid[OF sample_init_kr sample_init_r_symmetric]
    spectral_radial_grid[OF sample_init_kr_mode_1 sample_init_r_symmetric_mode_1]
    sample_init_kr sample_init_kr_mode_1
  by (simp add: sample_externals_def blank_def)

text \<open>
  C5 as it was stated fails for mode 1: with \<open>Rmax = 1\<close> and \<open>Nr = 1\<close> the spectral grid
  is \<open>[0]\<close>, while the first of the two positive roots over \<open>Rmax\<close> is \<open>3.8317\<close>; and
  with \<open>Rmax = 2\<close> and \<open>Nr = 2\<close> the spectral grid is \<open>[0, 3.8317 / 2]\<close> and
  \<^verbatim>\<open>alpha_np1\<close> is the second root, while the first two of the three roots over
  \<open>Rmax\<close> are \<open>[3.8317 / 2, 7.0156 / 2]\<close> and the third root is \<open>10.1735\<close>.
\<close>

theorem spectral_radial_grid_counterexample:
  "(case init_kr sample_externals ((blank numpy_backend)\<lparr> mode := 1 \<rparr>) 1 1 of
      Inl e \<Rightarrow> False
    | Inr self' \<Rightarrow>
        kr self' = [0] \<and>
        map (\<lambda>a. a / 1) (take 1 (bessel_zeros sample_externals 1 (1 + 1))) = [38317 / 10000])
   \<and> (case init_kr sample_externals ((blank numpy_backend)\<lparr> mode := 1 \<rparr>) 2 2 of
      Inl e \<Rightarrow> False
    | Inr self' \<Rightarrow>
        kr self' = [0, 38317 / 20000] \<and> alpha_np1 self' = 70156 / 10000 \<and>
        map (\<lambda>a. a / 2) (take 2 (bessel_zeros sample_externals 1 (2 + 1)))
          = [38317 / 20000, 70156 / 20000] \<and>
        last (bessel_zeros sample_externals 1 (2 + 1)) = 101735 / 10000)"
  by (simp add: init_kr_def jn_zeros_def sample_externals_def blank_def Let_def)

section \<open>Constructors: theorems\<close>

lemma PropagatorSymmetric_truncation_NameError:
  "Nr self \<le> n \<Longrightarrow> PropagatorSymmetric_truncation self (Some n) = Inl NameError"
  by (simp add: PropagatorSymmetric_truncation_def)

lemma PropagatorSymmetric_never_built:
  "Nr' \<le> n \<Longrightarrow> isl (PropagatorSymmetric ext (Rmax', Nr') kza (Some n) m dt bk)"
  by (auto simp: PropagatorSymmetric_def Let_def init_r_symmetric_def init_kr_def jn_zeros_def
      PropagatorSymmetric_truncation_def split: sum.splits if_splits kz_axis.splits)

text \<open>
  C6. A truncation request equal to the grid size, or larger, does not resolve to the
  untruncated grid: the constructor raises \<^verbatim>\<open>NameError\<close> (and no input with such a
  request builds a propagator, \<open>PropagatorSymmetric_never_built\<close>).
\<close>

theorem PropagatorSymmetric_truncation_request_raises:
  "PropagatorSymmetric sample_externals (1, 2) (KzTuple 1 0 1) (Some 2) 0 Complex128 None
     = Inl NameError
   \<and> PropagatorSymmetric sample_externals (1, 2) (KzTuple 1 0 1) (Some 3) 0 Complex128 None
     = Inl NameError"
  by (simp add: PropagatorSymmetric_def sample_externals_def init_backend_def
      init_r_symmetric_def init_kr_def jn_zeros_def blank_def PropagatorSymmetric_truncation_def
      linspace_def Let_def)

text \<open>
  C7. With a single sample on one axis \<^verbatim>\<open>init_xykxy_fft2\<close> raises
  \<^verbatim>\<open>IndexError\<close>, whatever the other axis is: the spacing is read from the samples 0
  and 1 of the axis before the single-sample case is looked at.
\<close>

theorem init_xykxy_fft2_single_sample_raises:
  "init_xykxy_fft2 self (Lx', 1) (Ly', Ny') = Inl IndexError
   \<and> init_xykxy_fft2 self (Lx', Nx') (Ly', 1) = Inl IndexError"
  by (simp add: init_xykxy_fft2_def linspace_def Let_def)

lemma PropagatorFFT2_single_sample_raises:
  "PropagatorFFT2 sample_externals (1, 1) (1, 8) (KzTuple 1 0 1) Complex128 None = Inl IndexError"
  by (simp add: PropagatorFFT2_def sample_externals_def init_backend_def init_xykxy_fft2_def
      linspace_def Let_def)

section \<open>Sequencing: lemmas\<close>

lemma seq_append:
  "seq (fs @ gs) s = (case seq fs s of (Inl e, s') \<Rightarrow> (Inl e, s') | (Inr w, s') \<Rightarrow> seq gs s')"
  by (induction fs arbitrary: s) (auto split: prod.splits sum.splits)

lemma for_range_0 [simp]: "for_range 0 body s = (Inr (), s)"
  by (simp add: for_range_def)

lemma for_range_Suc:
  "for_range (Suc n) body s =
     (case for_range n body s of (Inl e, s') \<Rightarrow> (Inl e, s') | (Inr w, s') \<Rightarrow> body n s')"
  by (auto simp: for_range_def seq_append split: prod.splits sum.splits)

section \<open>What the working buffers do not change\<close>

lemma frozen_fields [simp]:
  "kind (frozen self) = kind self" "dtype (frozen self) = dtype self"
  "Nkz (frozen self) = Nkz self" "kz (frozen self) = kz self" "kr2 (frozen self) = kr2 self"
  "Nr (frozen self) = Nr self" "Nr_new (frozen self) = Nr_new self"
  "Nx (frozen self) = Nx self" "Ny (frozen self) = Ny self"
  "self_j (frozen self) = self_j self" "TM (frozen self) = TM self"
  "invTM (frozen self) = invTM self" "shape_trns_new (frozen self) = shape_trns_new self"
  "kx (frozen self) = kx self" "ky (frozen self) = ky self"
  by (simp_all add: frozen_def)

lemma frozen_updates [simp]:
  "frozen (self\<lparr> u_loc := a \<rparr>) = frozen self"
  "frozen (self\<lparr> u_ht := b \<rparr>) = frozen self"
  "frozen (self\<lparr> u_iht := c \<rparr>) = frozen self"
  "frozen (self\<lparr> stepping_image := d \<rparr>) = frozen self"
  "frozen (self\<lparr> phase_loc := e \<rparr>) = frozen self"
  "frozen (self\<lparr> z_propagation := f \<rparr>) = frozen self"
  by (simp_all add: frozen_def)

lemma frozen_cong:
  assumes "frozen a = frozen b"
  shows "kind a = kind b" "dtype a = dtype b" "Nkz a = Nkz b" "kz a = kz b" "kr2 a = kr2 b"
    "Nr a = Nr b" "Nr_new a = Nr_new b" "Nx a = Nx b" "Ny a = Ny b" "self_j a = self_j b"
    "TM a = TM b" "invTM a = invTM b" "shape_trns_new a = shape_trns_new b"
    "kx a = kx b" "ky a = ky b"
  using frozen_fields[of a] frozen_fields[of b] assms by simp_all

lemma frozen_well_formed: "frozen a = frozen b \<Longrightarrow> well_formed a = well_formed b"
  by (simp add: well_formed_def in_size_def out_size_def frozen_cong[of a b] cong: kind.case_cong)

lemma frozen_sizes: "frozen a = frozen b \<Longrightarrow> in_size a = in_size b \<and> out_size a = out_size b"
  by (simp add: in_size_def out_size_def frozen_cong[of a b] cong: kind.case_cong)

lemma frozen_forward: "frozen a = frozen b \<Longrightarrow> forward a = forward b"
  by (rule ext) (simp add: forward_def frozen_cong[of a b] cong: kind.case_cong)

lemma frozen_backward: "frozen a = frozen b \<Longrightarrow> backward a = backward b"
  by (rule ext) (simp add: backward_def frozen_cong[of a b] cong: kind.case_cong)

lemma frozen_rates: "frozen a = frozen b \<Longrightarrow> clamp_rate a = clamp_rate b \<and> abs_rate a = abs_rate b"
  by (auto simp: clamp_rate_def abs_rate_def frozen_cong[of a b])

section \<open>The transforms on well-formed propagators\<close>

lemma inplace_same_length: "length b = length a \<Longrightarrow> inplace f a b = Inr (map2 f a b)"
  by (simp add: inplace_def)

lemma length_matvec [simp]: "length (matvec M v) = length M"
  by (simp add: matvec_def)

lemma matmul_ok: "list_all (\<lambda>row. length row = length v) M \<Longrightarrow> matmul M v = Inr (matvec M v)"
  by (simp add: matmul_def)

lemma list_all_take: "list_all P xs \<Longrightarrow> list_all P (take n xs)"
  by (auto simp: list_all_iff dest: in_set_takeD)

lemma length_dft2 [simp]: "length (dft2 nx ny v) = nx * ny"
  by (simp add: dft2_def)

lemma length_idft2 [simp]: "length (idft2 nx ny v) = nx * ny"
  by (simp add: idft2_def)

lemma length_forward: "well_formed self \<Longrightarrow> length (forward self v) = in_size self"
  by (auto simp: well_formed_def forward_def in_size_def split: kind.splits)

lemma length_backward:
  "well_formed self \<Longrightarrow> length (backward self h) = out_size self"
  by (auto simp: well_formed_def backward_def out_size_def split: kind.splits)

lemma TST_value:
  assumes "well_formed self" and "length (u_loc self) = in_size self"
  shows "\<exists>self'. TST self = (Inr (), self') \<and> u_ht self' = forward self (u_loc self)
           \<and> frozen self' = frozen self \<and> stepping_image self' = stepping_image self
           \<and> phase_loc self' = phase_loc self \<and> z_propagation self' = z_propagation self"
  using assms
  by (auto simp: TST_def Symmetric_TST_def Resampling_TST_def FFT2_TST_def well_formed_def
      in_size_def forward_def inplace_same_length matmul_ok fft2_def Let_def
      split: kind.splits)

lemma iTST_value:
  assumes "well_formed self" and "length (u_ht self) = in_size self"
  shows "\<exists>self'. iTST self = (Inr (), self') \<and> u_iht self' = backward self (u_ht self)
           \<and> frozen self' = frozen self \<and> stepping_image self' = stepping_image self
           \<and> phase_loc self' = phase_loc self \<and> z_propagation self' = z_propagation self"
  using assms
  by (auto simp: iTST_def Symmetric_iTST_def Resampling_iTST_def FFT2_iTST_def well_formed_def
      in_size_def backward_def inplace_same_length matmul_ok ifft2_def Let_def list_all_take
      split: kind.splits)

lemma clamped_phase_value:
  "ikz < length (kz self) \<Longrightarrow> clamped_phase self ikz = Inr (clamp_rate self ikz)"
  by (simp add: clamped_phase_def clamp_rate_def Let_def comp_def)

lemma abs_phase_value:
  "ikz < length (kz self) \<Longrightarrow> abs_phase self ikz = Inr (abs_rate self ikz)"
  by (simp add: abs_phase_def abs_rate_def)

lemma length_rates [simp]:
  "length (clamp_rate self i) = length (kr2 self)" "length (abs_rate self i) = length (kr2 self)"
  "length (phase_factors dz ph) = length ph"
  by (simp_all add: clamp_rate_def abs_rate_def phase_factors_def)

lemma mul_u_ht_value:
  assumes "length ph = length (u_ht self)"
  shows "mul_u_ht dz (Inr ph) self =
           (Inr (), self\<lparr> u_ht := map2 (*) (u_ht self) (phase_factors dz ph) \<rparr>)"
  using assms by (simp add: mul_u_ht_def phase_factors_def inplace_same_length)

section \<open>The result of step\<close>

lemma step_body_value:
  assumes wf: "well_formed self" and i: "ikz < Nkz self"
    and u1: "ikz < length (data (cells h u))"
    and u2: "length (data (cells h u) ! ikz) = in_size self"
    and o1: "ikz < length (data (cells h us))"
    and o2: "length (data (cells h us) ! ikz) = out_size self"
  shows "\<exists>self'. step_body u us dz ikz (self, h) =
           (Inr (), (self', h\<lparr> cells := (cells h)(us := (cells h us)\<lparr> data :=
              (data (cells h us))[ikz := step_value self dz ikz (data (cells h u) ! ikz)] \<rparr>) \<rparr>))
         \<and> frozen self' = frozen self"
proof -
  define row where "row = data (cells h u) ! ikz"
  define self1 where "self1 = self\<lparr> u_loc := row \<rparr>"
  have f1: "frozen self1 = frozen self" by (simp add: self1_def)
  have wf1: "well_formed self1" using wf frozen_well_formed[OF f1] by simp
  have s1: "on_self (set_u_loc (getitem (data (cells h u)) ikz)) (self, h) = (Inr (), (self1, h))"
    using u1 by (simp add: on_self_def set_u_loc_def getitem_def self1_def row_def)
  have "length (u_loc self1) = in_size self1"
    using u2 frozen_sizes[OF f1] by (simp add: self1_def row_def)
  from TST_value[OF wf1 this] obtain self2 where
    t: "TST self1 = (Inr (), self2)" and h2: "u_ht self2 = forward self1 (u_loc self1)"
    and f2: "frozen self2 = frozen self1" by blast
  have wf2: "well_formed self2" using wf1 frozen_well_formed[OF f2] by simp
  have h2': "u_ht self2 = forward self row"
    using h2 frozen_forward[OF f1] by (simp add: self1_def)
  have kz2: "ikz < length (kz self2)"
    using i wf2 frozen_cong(3)[OF f2] frozen_cong(3)[OF f1] by (simp add: well_formed_def)
  have len2: "length (clamp_rate self2 ikz) = length (u_ht self2)"
    using wf2 length_forward[OF wf, of row] h2' frozen_sizes[OF f2] frozen_sizes[OF f1]
    by (simp add: well_formed_def)
  define self3 where
    "self3 = self2\<lparr> u_ht := map2 (*) (u_ht self2) (phase_factors dz (clamp_rate self2 ikz)) \<rparr>"
  have s3: "mul_u_ht dz (clamped_phase self2 ikz) self2 = (Inr (), self3)"
    using mul_u_ht_value[OF len2] clamped_phase_value[OF kz2] by (simp add: self3_def)
  have f3: "frozen self3 = frozen self" using f2 f1 by (simp add: self3_def)
  have wf3: "well_formed self3" using wf frozen_well_formed[OF f3] by simp
  have h3: "u_ht self3 = map2 (*) (forward self row) (phase_factors dz (clamp_rate self ikz))"
    using h2' frozen_rates[of self2 self] f2 f1 by (simp add: self3_def)
  have "length (u_ht self3) = in_size self3"
    using h3 length_forward[OF wf, of row] wf frozen_sizes[OF f3]
    by (simp add: well_formed_def)
  from iTST_value[OF wf3 this] obtain self4 where
    it: "iTST self3 = (Inr (), self4)" and h4: "u_iht self4 = backward self3 (u_ht self3)"
    and f4: "frozen self4 = frozen self3" by blast
  have v4: "u_iht self4 = step_value self dz ikz row"
    using h4 h3 frozen_backward[OF f3] by (simp add: step_value_def)
  have "length (u_iht self4) = out_size self"
    using v4 length_backward[OF wf] by (simp add: step_value_def)
  then have s5: "store_row us ikz (self4, h) =
      (Inr (), (self4, h\<lparr> cells := (cells h)(us := (cells h us)\<lparr> data :=
              (data (cells h us))[ikz := step_value self dz ikz row] \<rparr>) \<rparr>))"
    using o1 o2 v4 by (simp add: store_row_def setitem_def fit_def)
  have "step_body u us dz ikz (self, h) =
      (Inr (), (self4, h\<lparr> cells := (cells h)(us := (cells h us)\<lparr> data :=
              (data (cells h us))[ikz := step_value self dz ikz row] \<rparr>) \<rparr>))"
    using s1 t s3 it s5 by (simp add: step_body_def on_self_def)
  moreover have "frozen self4 = frozen self" using f4 f3 by simp
  ultimately show ?thesis unfolding row_def by blast
qed

lemma upd_prefix:
  "n < length xs \<Longrightarrow> length ys = n \<Longrightarrow> (ys @ drop n xs)[n := v] = ys @ v # drop (Suc n) xs"
  by (simp add: list_update_append Cons_nth_drop_Suc[symmetric])

lemma step_loop_value:
  assumes wf: "well_formed self" and ne: "u \<noteq> us"
    and ul: "Nkz self \<le> length (data (cells h u))"
    and us: "\<forall>i < Nkz self. length (data (cells h u) ! i) = in_size self"
    and ol: "length (data (cells h us)) = Nkz self"
    and os: "\<forall>i < Nkz self. length (data (cells h us) ! i) = out_size self"
    and n: "n \<le> Nkz self"
  shows "\<exists>self'. for_range n (step_body u us dz) (self, h) =
           (Inr (), (self', h\<lparr> cells := (cells h)(us := (cells h us)\<lparr> data :=
              map (\<lambda>i. step_value self dz i (data (cells h u) ! i)) [0..<n]
                @ drop n (data (cells h us)) \<rparr>) \<rparr>))
         \<and> frozen self' = frozen self"
  using n
proof (induction n)
  case 0
  show ?case by simp
next
  case (Suc n)
  have "n \<le> Nkz self" using Suc.prems by simp
  from Suc.IH[OF this] obtain self' where
    run: "for_range n (step_body u us dz) (self, h) =
           (Inr (), (self', h\<lparr> cells := (cells h)(us := (cells h us)\<lparr> data :=
              map (\<lambda>i. step_value self dz i (data (cells h u) ! i)) [0..<n]
                @ drop n (data (cells h us)) \<rparr>) \<rparr>))"
    and fr: "frozen self' = frozen self" by blast
  define h' where "h' = h\<lparr> cells := (cells h)(us := (cells h us)\<lparr> data :=
              map (\<lambda>i. step_value self dz i (data (cells h u) ! i)) [0..<n]
                @ drop n (data (cells h us)) \<rparr>) \<rparr>"
  have wf': "well_formed self'" using wf frozen_well_formed[OF fr] by simp
  have nk: "n < Nkz self" using Suc.prems by simp
  have same_u: "cells h' u = cells h u" using ne by (simp add: h'_def)
  have a1: "n < Nkz self'" using nk frozen_cong(3)[OF fr] by simp
  have a2: "n < length (data (cells h' u))" using nk ul same_u by simp
  have a3: "length (data (cells h' u) ! n) = in_size self'"
    using us nk same_u frozen_sizes[OF fr] by simp
  have a4: "n < length (data (cells h' us))" using nk ol by (simp add: h'_def)
  have a5: "length (data (cells h' us) ! n) = out_size self'"
    using os nk ol frozen_sizes[OF fr] by (simp add: h'_def nth_append)
  from step_body_value[OF wf' a1 a2 a3 a4 a5, of dz] obtain self'' where
    b: "step_body u us dz n (self', h') =
           (Inr (), (self'', h'\<lparr> cells := (cells h')(us := (cells h' us)\<lparr> data :=
              (data (cells h' us))[n := step_value self' dz n (data (cells h' u) ! n)] \<rparr>) \<rparr>))"
    and fr': "frozen self'' = frozen self'" by blast
  have sv: "step_value self' dz n = step_value self dz n"
    using frozen_forward[OF fr] frozen_backward[OF fr] frozen_rates[OF fr]
    by (intro ext) (simp add: step_value_def)
  have "for_range (Suc n) (step_body u us dz) (self, h) =
          (Inr (), (self'', h\<lparr> cells := (cells h)(us := (cells h us)\<lparr> data :=
              map (\<lambda>i. step_value self dz i (data (cells h u) ! i)) [0..<Suc n]
                @ drop (Suc n) (data (cells h us)) \<rparr>) \<rparr>))"
    using run b nk ol same_u
    by (simp add: for_range_Suc h'_def[symmetric] sv) (simp add: h'_def upd_prefix)
  moreover have "frozen self'' = frozen self" using fr fr' by simp
  ultimately show ?case by blast
qed
lemma field_of_rows:
  "field_of self u \<Longrightarrow> i < Nkz self \<Longrightarrow> length (data u ! i) = in_size self"
  by (auto simp: field_of_def list_all_length)

lemma step_value_thm:
  assumes wf: "well_formed self" and fu: "field_of self (cells h u)" and al: "u < top h"
  shows "\<exists>self'. step self h u dz False =
           (Inr (top h), self',
            h\<lparr> cells := (cells h)(top h := \<lparr> adtype = adtype (cells h u), data =
                   map (\<lambda>i. step_value self dz i (data (cells h u) ! i)) [0..<Nkz self] \<rparr>),
               top := Suc (top h) \<rparr>)
         \<and> frozen self' = frozen self"
proof -
  define a0 where "a0 = np_empty (Nkz self) (shape_trns_new self) (adtype (cells h u))"
  define h1 where "h1 = h\<lparr> cells := (cells h)(top h := a0), top := Suc (top h) \<rparr>"
  have ne: "u \<noteq> top h" using al by simp
  have cu: "cells h1 u = cells h u" using ne by (simp add: h1_def)
  have co: "cells h1 (top h) = a0" by (simp add: h1_def)
  have ul: "Nkz self \<le> length (data (cells h1 u))" using fu cu by (simp add: field_of_def)
  have us: "\<forall>i < Nkz self. length (data (cells h1 u) ! i) = in_size self"
    using field_of_rows[OF fu] cu by simp
  have ol: "length (data (cells h1 (top h))) = Nkz self" by (simp add: co a0_def np_empty_def)
  have os: "\<forall>i < Nkz self. length (data (cells h1 (top h)) ! i) = out_size self"
    using wf by (simp add: co a0_def np_empty_def zeros_def well_formed_def)
  from step_loop_value[OF wf ne ul us ol os order_refl, of dz] obtain self' where
    run: "for_range (Nkz self) (step_body u (top h) dz) (self, h1) =
           (Inr (), (self', h1\<lparr> cells := (cells h1)(top h := (cells h1 (top h))\<lparr> data :=
              map (\<lambda>i. step_value self dz i (data (cells h1 u) ! i)) [0..<Nkz self]
                @ drop (Nkz self) (data (cells h1 (top h))) \<rparr>) \<rparr>))"
    and fr: "frozen self' = frozen self" by blast
  have "step self h u dz False =
           (Inr (top h), self',
            h\<lparr> cells := (cells h)(top h := \<lparr> adtype = adtype (cells h u), data =
                   map (\<lambda>i. step_value self dz i (data (cells h u) ! i)) [0..<Nkz self] \<rparr>),
               top := Suc (top h) \<rparr>)"
    using fu run cu ol
    by (simp add: step_def alloc_def field_of_def a0_def[symmetric] h1_def[symmetric])
       (simp add: h1_def a0_def np_empty_def)
  then show ?thesis using fr by blast
qed

section \<open>The host arrays that step leaves alone\<close>

lemma seq_preserves:
  assumes step: "\<And>f s r s'. f \<in> set fs \<Longrightarrow> f s = (r, s') \<Longrightarrow> R s s'"
    and refl: "\<And>s. R s s"
    and trans: "\<And>a b c. R a b \<Longrightarrow> R b c \<Longrightarrow> R a c"
  shows "seq fs s = (r, s') \<Longrightarrow> R s s'"
  using step
proof (induction fs arbitrary: s)
  case Nil
  then show ?case using refl by simp
next
  case (Cons f fs)
  obtain r1 s1 where f1: "f s = (r1, s1)" by (cases "f s")
  have R1: "R s s1" using Cons.prems(2)[of f s r1 s1] f1 by simp
  show ?case
  proof (cases r1)
    case (Inl e)
    then show ?thesis using Cons.prems(1) f1 R1 by simp
  next
    case (Inr w)
    then have "seq fs s1 = (r, s')" using Cons.prems(1) f1 by simp
    then have "R s1 s'" by (rule Cons.IH) (use Cons.prems(2) in auto)
    then show ?thesis using R1 trans by blast
  qed
qed

lemma for_range_preserves:
  assumes "\<And>i s r s'. i < n \<Longrightarrow> body i s = (r, s') \<Longrightarrow> R s s'"
    and "\<And>s. R s s"
    and "\<And>a b c. R a b \<Longrightarrow> R b c \<Longrightarrow> R a c"
    and "for_range n body s = (r, s')"
  shows "R s s'"
proof -
  have "seq (map body [0..<n]) s = (r, s')" using assms(4) by (simp only: for_range_def)
  then show ?thesis
    by (rule seq_preserves[where R = R, rotated 3]) (use assms(1-3) in auto)
qed

lemma on_self_frame: "on_self f s = (r, s') \<Longrightarrow> snd s' = snd s"
  by (auto simp: on_self_def split: prod.splits)

lemma store_row_frame: "store_row us i s = (r, s') \<Longrightarrow> heap_frame us s s'"
  by (auto simp: store_row_def heap_frame_def split: prod.splits sum.splits)

lemma step_body_frame:
  assumes "step_body u us dz i s = (r, s')"
  shows "heap_frame us s s'"
proof -
  have "seq [ (\<lambda>s. on_self (set_u_loc (getitem (data (cells (snd s) u)) i)) s),
              on_self TST,
              (\<lambda>s. on_self (mul_u_ht dz (clamped_phase (fst s) i)) s),
              on_self iTST,
              store_row us i ] s = (r, s')"
    using assms by (simp only: step_body_def)
  then show ?thesis
    by (rule seq_preserves[where R = "heap_frame us", rotated 3])
       (auto simp: heap_frame_def dest: on_self_frame dest!: store_row_frame)
qed

lemma step_loop_frame: "for_range n (step_body u us dz) s = (r, s') \<Longrightarrow> heap_frame us s s'"
  by (erule for_range_preserves[where R = "heap_frame us", rotated 3])
     (auto simp: heap_frame_def dest!: step_body_frame)

lemma step_frame:
  assumes "step self h u dz False = (res, self', h')"
  shows "(\<forall>a. a \<noteq> top h \<longrightarrow> cells h' a = cells h a)
         \<and> (\<forall>ref. res = Inr ref \<longrightarrow> ref = top h \<and> top h' = Suc (top h))"
proof (cases "adtype (cells h u) = dtype self")
  case False
  then show ?thesis using assms by (auto simp: step_def)
next
  case True
  define h1 where "h1 = snd (alloc h (np_empty (Nkz self) (shape_trns_new self) (adtype (cells h u))))"
  obtain r1 s1 where run: "for_range (Nkz self) (step_body u (top h) dz) (self, h1) = (r1, s1)"
    by (cases "for_range (Nkz self) (step_body u (top h) dz) (self, h1)")
  have fr: "heap_frame (top h) (self, h1) s1" using step_loop_frame[OF run] .
  have "h' = snd s1 \<and> (\<forall>ref. res = Inr ref \<longrightarrow> ref = top h)"
    using assms True run
    by (auto simp: step_def alloc_def h1_def split: prod.splits sum.splits)
  then show ?thesis using fr by (auto simp: heap_frame_def h1_def alloc_def)
qed

section \<open>The sample propagator\<close>

lemma upt_4: "[0..<4] = [0, 1, 2, 3]"
  by (simp add: upt_rec)

lemma sample_fft2_built:
  "PropagatorFFT2 sample_externals (pi, 2) (pi, 2) (KzTuple k0 0 1) Complex128 None
     = Inr (sample_fft2 k0)"
  by (simp add: sample_fft2_def PropagatorFFT2_def sample_externals_def init_backend_def
      init_xykxy_fft2_def linspace_def Let_def fftfreq_def)

lemma sample_fft2_fields:
  "kind (sample_fft2 k0) = FFT2" "dtype (sample_fft2 k0) = Complex128" "Nkz (sample_fft2 k0) = 1"
  "kz (sample_fft2 k0) = [k0]" "kr2 (sample_fft2 k0) = [0, 1, 1, 2]"
  "Nx (sample_fft2 k0) = 2" "Ny (sample_fft2 k0) = 2"
  "shape_trns_new (sample_fft2 k0) = [2, 2]"
  "kx (sample_fft2 k0) = [0, - 1]" "ky (sample_fft2 k0) = [0, - 1]"
  by (simp_all add: sample_fft2_def PropagatorFFT2_def sample_externals_def init_backend_def
      init_xykxy_fft2_def linspace_def Let_def fftfreq_def fftfreq_bins_def outer_def blank_def
      PropagatorFFT2_init_TST_def)

lemma sample_fft2_well_formed: "well_formed (sample_fft2 k0)"
  by (simp add: well_formed_def in_size_def out_size_def sample_fft2_fields)

lemma twiddle_2: "twiddle 2 p k = (if even (p * k) then 1 else - 1)"
proof -
  have "2 * pi * real (p * k) / real 2 = real (p * k) * pi" by simp
  then have "twiddle 2 p k = cis (real (p * k) * pi)" by (simp only: twiddle_def)
  also have "\<dots> = (cis pi) ^ (p * k)" by (simp only: DeMoivre)
  also have "\<dots> = (if even (p * k) then 1 else - 1)" by simp
  finally show ?thesis .
qed

lemma dft2_22: "dft2 2 2 [a, b, c, d] = [a + b + c + d, a - b + c - d, a + b - c - d, a - b - c + d]"
  by (simp add: dft2_def upt_4 twiddle_2)

lemma idft2_22:
  "idft2 2 2 [a, b, c, d] =
     [(a + b + c + d) / 4, (a - b + c - d) / 4, (a + b - c - d) / 4, (a - b - c + d) / 4]"
  by (simp add: idft2_def upt_4 twiddle_2)

section \<open>Linearity\<close>

lemma length_axpby [simp]: "length (axpby a v b w) = min (length v) (length w)"
  by (simp add: axpby_def)

lemma nth_axpby:
  "n < length v \<Longrightarrow> n < length w \<Longrightarrow> axpby a v b w ! n = a * v ! n + b * w ! n"
  by (simp add: axpby_def)

lemma sum_list_map2_axpby:
  "length v = length w \<Longrightarrow>
     sum_list (map2 (*) row (axpby a v b w)) =
       a * sum_list (map2 (*) row v) + b * sum_list (map2 (*) row w)"
proof (induction row arbitrary: v w)
  case Nil
  then show ?case by simp
next
  case (Cons c row)
  show ?case
  proof (cases v)
    case Nil
    then show ?thesis using Cons.prems by (simp add: axpby_def)
  next
    case (Cons p v')
    then obtain q w' where w: "w = q # w'" using Cons.prems by (cases w) auto
    have "length v' = length w'" using Cons.prems Cons w by simp
    from Cons.IH[OF this] show ?thesis
      using Cons w by (simp add: axpby_def algebra_simps)
  qed
qed

lemma matvec_axpby:
  "length v = length w \<Longrightarrow> matvec M (axpby a v b w) = axpby a (matvec M v) b (matvec M w)"
  by (rule nth_equalityI) (simp_all add: matvec_def nth_axpby sum_list_map2_axpby)

lemma map2_axpby:
  assumes "length v = length w"
    and "\<And>p q c. f (a * p + b * q) c = a * f p c + b * f q c"
  shows "map2 f (axpby a v b w) cs = axpby a (map2 f v cs) b (map2 f w cs)"
  using assms by (intro nth_equalityI) (simp_all add: nth_axpby)

lemma sum_list_axpby:
  "sum_list (map (\<lambda>n. (a * f n + b * g n) * h n) ns) =
     (a :: complex) * sum_list (map (\<lambda>n. f n * h n) ns) + b * sum_list (map (\<lambda>n. g n * h n) ns)"
  by (induction ns) (simp_all add: algebra_simps)

lemma dft2_axpby:
  assumes "length v = nx * ny" "length w = nx * ny"
  shows "dft2 nx ny (axpby a v b w) = axpby a (dft2 nx ny v) b (dft2 nx ny w)"
proof (rule nth_equalityI)
  show "length (dft2 nx ny (axpby a v b w)) = length (axpby a (dft2 nx ny v) b (dft2 nx ny w))"
    by simp
next
  fix m assume "m < length (dft2 nx ny (axpby a v b w))"
  then have m: "m < nx * ny" by simp
  define c where "c = (\<lambda>n. cnj (twiddle nx (n div ny) (m div ny)) * cnj (twiddle ny (n mod ny) (m mod ny)))"
  have A: "map (\<lambda>n. axpby a v b w ! n * c n) [0..<nx * ny]
         = map (\<lambda>n. (a * v ! n + b * w ! n) * c n) [0..<nx * ny]"
    using assms by (intro map_cong refl) (simp add: nth_axpby)
  have "dft2 nx ny (axpby a v b w) ! m = sum_list (map (\<lambda>n. axpby a v b w ! n * c n) [0..<nx * ny])"
    using m by (simp add: dft2_def c_def mult.assoc)
  also have "\<dots> = sum_list (map (\<lambda>n. (a * v ! n + b * w ! n) * c n) [0..<nx * ny])"
    by (simp only: A)
  also have "\<dots> = a * sum_list (map (\<lambda>n. v ! n * c n) [0..<nx * ny])
                  + b * sum_list (map (\<lambda>n. w ! n * c n) [0..<nx * ny])"
    by (rule sum_list_axpby)
  also have "\<dots> = axpby a (dft2 nx ny v) b (dft2 nx ny w) ! m"
    using m by (simp add: dft2_def nth_axpby c_def mult.assoc)
  finally show "dft2 nx ny (axpby a v b w) ! m = axpby a (dft2 nx ny v) b (dft2 nx ny w) ! m" .
qed

lemma idft2_axpby:
  assumes "length v = nx * ny" "length w = nx * ny"
  shows "idft2 nx ny (axpby a v b w) = axpby a (idft2 nx ny v) b (idft2 nx ny w)"
proof (rule nth_equalityI)
  show "length (idft2 nx ny (axpby a v b w)) = length (axpby a (idft2 nx ny v) b (idft2 nx ny w))"
    by simp
next
  fix n assume "n < length (idft2 nx ny (axpby a v b w))"
  then have n: "n < nx * ny" by simp
  define c where "c = (\<lambda>m. twiddle nx (n div ny) (m div ny) * twiddle ny (n mod ny) (m mod ny))"
  define N where "N = (of_nat (nx * ny) :: complex)"
  have A: "map (\<lambda>m. axpby a v b w ! m * c m) [0..<nx * ny]
         = map (\<lambda>m. (a * v ! m + b * w ! m) * c m) [0..<nx * ny]"
    using assms by (intro map_cong refl) (simp add: nth_axpby)
  have "idft2 nx ny (axpby a v b w) ! n
          = sum_list (map (\<lambda>m. axpby a v b w ! m * c m) [0..<nx * ny]) / N"
    using n by (simp add: idft2_def c_def N_def mult.assoc)
  also have "\<dots> = sum_list (map (\<lambda>m. (a * v ! m + b * w ! m) * c m) [0..<nx * ny]) / N"
    by (simp only: A)
  also have "\<dots> = (a * sum_list (map (\<lambda>m. v ! m * c m) [0..<nx * ny])
                  + b * sum_list (map (\<lambda>m. w ! m * c m) [0..<nx * ny])) / N"
    by (simp only: sum_list_axpby)
  also have "\<dots> = axpby a (idft2 nx ny v) b (idft2 nx ny w) ! n"
    using n by (simp add: idft2_def nth_axpby c_def N_def mult.assoc add_divide_distrib)
  finally show "idft2 nx ny (axpby a v b w) ! n = axpby a (idft2 nx ny v) b (idft2 nx ny w) ! n" .
qed

lemma forward_axpby:
  assumes "well_formed self" "length v = in_size self" "length w = in_size self"
  shows "forward self (axpby a v b w) = axpby a (forward self v) b (forward self w)"
  using assms
  by (auto simp: forward_def well_formed_def in_size_def matvec_axpby dft2_axpby map2_axpby
      add_divide_distrib split: kind.splits)

lemma backward_axpby:
  assumes "well_formed self" "length g = in_size self" "length h = in_size self"
  shows "backward self (axpby a g b h) = axpby a (backward self g) b (backward self h)"
  using assms
  by (auto simp: backward_def well_formed_def in_size_def matvec_axpby idft2_axpby map2_axpby
      algebra_simps split: kind.splits)

lemma step_value_axpby:
  assumes "well_formed self" "length v = in_size self" "length w = in_size self"
  shows "step_value self dz i (axpby a v b w)
           = axpby a (step_value self dz i v) b (step_value self dz i w)"
proof -
  have "map2 (*) (axpby a (forward self v) b (forward self w)) (phase_factors dz (clamp_rate self i))
      = axpby a (map2 (*) (forward self v) (phase_factors dz (clamp_rate self i)))
              b (map2 (*) (forward self w) (phase_factors dz (clamp_rate self i)))"
    using assms by (intro map2_axpby) (simp_all add: length_forward algebra_simps)
  moreover have "length (map2 (*) (forward self v) (phase_factors dz (clamp_rate self i))) = in_size self"
    "length (map2 (*) (forward self w) (phase_factors dz (clamp_rate self i))) = in_size self"
    using assms by (simp_all add: length_forward well_formed_def)
  ultimately show ?thesis
    using assms by (simp add: step_value_def forward_axpby backward_axpby)
qed

lemma field_of_axpby:
  assumes "field_of self u1" "field_of self u2" "length (data u1) = length (data u2)"
  shows "field_of self (axpby_field a u1 b u2)"
  using assms
  by (auto simp: field_of_def axpby_field_def list_all_length)

lemma frozen_step_value: "frozen p = frozen q \<Longrightarrow> step_value p = step_value q"
  using frozen_forward[of p q] frozen_backward[of p q] frozen_rates[of p q]
  by (intro ext) (simp add: step_value_def)

text \<open>
  C4. Linearity of \<^verbatim>\<open>step\<close>. The three calls may find the propagator with different
  contents of its working buffers (\<open>self1\<close> and \<open>self2\<close> are \<open>self\<close> up to these),
  and the three fields in any host memories.
\<close>

theorem step_linear:
  assumes wf: "well_formed self"
    and f1: "frozen self1 = frozen self" and f2: "frozen self2 = frozen self"
    and u1: "field_of self (cells h1 r1)" and a1: "r1 < top h1"
    and u2: "field_of self (cells h2 r2)" and a2: "r2 < top h2"
    and sh: "length (data (cells h1 r1)) = length (data (cells h2 r2))"
    and u3: "cells h3 r3 = axpby_field a (cells h1 r1) b (cells h2 r2)" and a3: "r3 < top h3"
  shows "\<exists>p1 p2 p3 g1 g2 g3.
           step self h1 r1 dz False = (Inr (top h1), p1, g1)
         \<and> step self1 h2 r2 dz False = (Inr (top h2), p2, g2)
         \<and> step self2 h3 r3 dz False = (Inr (top h3), p3, g3)
         \<and> cells g3 (top h3) = axpby_field a (cells g1 (top h1)) b (cells g2 (top h2))"
proof -
  have wf1: "well_formed self1" and wf2: "well_formed self2"
    using wf frozen_well_formed[OF f1] frozen_well_formed[OF f2] by simp_all
  have k1: "Nkz self1 = Nkz self" and k2: "Nkz self2 = Nkz self"
    using frozen_cong(3)[OF f1] frozen_cong(3)[OF f2] by simp_all
  have d1: "dtype self1 = dtype self" and d2: "dtype self2 = dtype self"
    using frozen_cong(2)[OF f1] frozen_cong(2)[OF f2] by simp_all
  have u2': "field_of self1 (cells h2 r2)"
    using u2 k1 d1 frozen_sizes[OF f1] by (simp add: field_of_def)
  have "field_of self (cells h3 r3)"
    using field_of_axpby[OF u1 u2 sh] u3 by simp
  then have u3': "field_of self2 (cells h3 r3)"
    using k2 d2 frozen_sizes[OF f2] by (simp add: field_of_def)
  from step_value_thm[OF wf u1 a1, of dz] obtain p1 where
    s1: "step self h1 r1 dz False =
           (Inr (top h1), p1,
            h1\<lparr> cells := (cells h1)(top h1 := \<lparr> adtype = adtype (cells h1 r1), data =
                   map (\<lambda>i. step_value self dz i (data (cells h1 r1) ! i)) [0..<Nkz self] \<rparr>),
               top := Suc (top h1) \<rparr>)" by blast
  from step_value_thm[OF wf1 u2' a2, of dz] obtain p2 where
    s2: "step self1 h2 r2 dz False =
           (Inr (top h2), p2,
            h2\<lparr> cells := (cells h2)(top h2 := \<lparr> adtype = adtype (cells h2 r2), data =
                   map (\<lambda>i. step_value self1 dz i (data (cells h2 r2) ! i)) [0..<Nkz self1] \<rparr>),
               top := Suc (top h2) \<rparr>)" by blast
  from step_value_thm[OF wf2 u3' a3, of dz] obtain p3 where
    s3: "step self2 h3 r3 dz False =
           (Inr (top h3), p3,
            h3\<lparr> cells := (cells h3)(top h3 := \<lparr> adtype = adtype (cells h3 r3), data =
                   map (\<lambda>i. step_value self2 dz i (data (cells h3 r3) ! i)) [0..<Nkz self2] \<rparr>),
               top := Suc (top h3) \<rparr>)" by blast
  have rows: "map (\<lambda>i. step_value self dz i (data (cells h3 r3) ! i)) [0..<Nkz self]
      = map2 (\<lambda>v w. axpby a v b w)
          (map (\<lambda>i. step_value self dz i (data (cells h1 r1) ! i)) [0..<Nkz self])
          (map (\<lambda>i. step_value self dz i (data (cells h2 r2) ! i)) [0..<Nkz self])"
  proof (rule nth_equalityI)
    show "length (map (\<lambda>i. step_value self dz i (data (cells h3 r3) ! i)) [0..<Nkz self])
        = length (map2 (\<lambda>v w. axpby a v b w)
          (map (\<lambda>i. step_value self dz i (data (cells h1 r1) ! i)) [0..<Nkz self])
          (map (\<lambda>i. step_value self dz i (data (cells h2 r2) ! i)) [0..<Nkz self]))"
      by simp
  next
    fix i assume "i < length (map (\<lambda>i. step_value self dz i (data (cells h3 r3) ! i)) [0..<Nkz self])"
    then have i: "i < Nkz self" by simp
    have l1: "length (data (cells h1 r1) ! i) = in_size self"
      and l2: "length (data (cells h2 r2) ! i) = in_size self"
      using field_of_rows[OF u1 i] field_of_rows[OF u2 i] by simp_all
    have "i < length (data (cells h1 r1))" "i < length (data (cells h2 r2))"
      using u1 u2 i by (simp_all add: field_of_def)
    then have "data (cells h3 r3) ! i = axpby a (data (cells h1 r1) ! i) b (data (cells h2 r2) ! i)"
      using u3 by (simp add: axpby_field_def)
    then show "map (\<lambda>i. step_value self dz i (data (cells h3 r3) ! i)) [0..<Nkz self] ! i
        = map2 (\<lambda>v w. axpby a v b w)
          (map (\<lambda>i. step_value self dz i (data (cells h1 r1) ! i)) [0..<Nkz self])
          (map (\<lambda>i. step_value self dz i (data (cells h2 r2) ! i)) [0..<Nkz self]) ! i"
      using i step_value_axpby[OF wf l1 l2] by simp
  qed
  have "cells (h3\<lparr> cells := (cells h3)(top h3 := \<lparr> adtype = adtype (cells h3 r3), data =
                   map (\<lambda>i. step_value self2 dz i (data (cells h3 r3) ! i)) [0..<Nkz self2] \<rparr>),
               top := Suc (top h3) \<rparr>) (top h3)
      = axpby_field a
          (cells (h1\<lparr> cells := (cells h1)(top h1 := \<lparr> adtype = adtype (cells h1 r1), data =
                   map (\<lambda>i. step_value self dz i (data (cells h1 r1) ! i)) [0..<Nkz self] \<rparr>),
               top := Suc (top h1) \<rparr>) (top h1))
          b
          (cells (h2\<lparr> cells := (cells h2)(top h2 := \<lparr> adtype = adtype (cells h2 r2), data =
                   map (\<lambda>i. step_value self1 dz i (data (cells h2 r2) ! i)) [0..<Nkz self1] \<rparr>),
               top := Suc (top h2) \<rparr>) (top h2))"
    using rows u3 k1 k2 frozen_step_value[OF f1] frozen_step_value[OF f2]
    by (simp add: axpby_field_def)
  then show ?thesis using s1 s2 s3 by blast
qed

lemma sample_fields:
  "field_of (sample_fft2 k0) sample_field" "field_of (sample_fft2 k0) single_mode"
  by (simp_all add: field_of_def sample_field_def single_mode_def sample_fft2_fields in_size_def)

lemma sample_heap_cells:
  "cells sample_heap 0 = sample_field" "cells sample_heap 1 = single_mode"
  "cells sample_heap 2 = axpby_field 2 sample_field \<i> single_mode" "top sample_heap = 3"
  by (simp_all add: sample_heap_def)

theorem step_linear_witness:
  "\<exists>p1 p2 p3 g1 g2 g3.
     step (sample_fft2 1) sample_heap 0 (1 / 2) False = (Inr 3, p1, g1)
   \<and> step (sample_fft2 1) sample_heap 1 (1 / 2) False = (Inr 3, p2, g2)
   \<and> step (sample_fft2 1) sample_heap 2 (1 / 2) False = (Inr 3, p3, g3)
   \<and> cells g3 3 = axpby_field 2 (cells g1 3) \<i> (cells g2 3)"
proof -
  have u1: "field_of (sample_fft2 1) (cells sample_heap 0)"
    and u2: "field_of (sample_fft2 1) (cells sample_heap 1)"
    by (simp_all add: sample_heap_def sample_fields)
  have sh: "length (data (cells sample_heap 0)) = length (data (cells sample_heap 1))"
    by (simp add: sample_heap_def sample_field_def single_mode_def)
  have u3: "cells sample_heap 2 = axpby_field 2 (cells sample_heap 0) \<i> (cells sample_heap 1)"
    by (simp add: sample_heap_def)
  have a: "0 < top sample_heap" "1 < top sample_heap" "2 < top sample_heap"
    by (simp_all add: sample_heap_def)
  show ?thesis
    using step_linear[OF sample_fft2_well_formed refl refl u1 a(1) u2 a(2) sh u3 a(3), of "1 / 2"]
    by (simp add: sample_heap_cells(4))
qed
section \<open>The output array of step\<close>

text \<open>
  C10. With \<^verbatim>\<open>overwrite\<close> left at \<^verbatim>\<open>False\<close>, whatever \<^verbatim>\<open>step\<close> does (it may
  raise), every host array that was allocated before the call, the input \<open>u\<close> among them,
  is as it was; when \<^verbatim>\<open>step\<close> returns, it returns the address that was free before
  the call; and for a well-formed propagator and a field of its shape it does return, the
  new array holding the propagated slices.
\<close>

theorem step_writes_fresh_array:
  assumes run: "step self h u dz False = (res, self', h')" and al: "u < top h"
  shows "cells h' u = cells h u
       \<and> (\<forall>a < top h. cells h' a = cells h a)
       \<and> (\<forall>ref. res = Inr ref \<longrightarrow> ref = top h \<and> top h' = Suc (top h))
       \<and> (well_formed self \<and> field_of self (cells h u) \<longrightarrow>
            res = Inr (top h)
          \<and> cells h' (top h) = \<lparr> adtype = adtype (cells h u), data =
               map (\<lambda>i. step_value self dz i (data (cells h u) ! i)) [0..<Nkz self] \<rparr>)"
proof -
  have fr: "\<forall>a. a \<noteq> top h \<longrightarrow> cells h' a = cells h a"
    and rf: "\<forall>ref. res = Inr ref \<longrightarrow> ref = top h \<and> top h' = Suc (top h)"
    using step_frame[OF run] by blast+
  have 1: "cells h' u = cells h u" using fr al by simp
  have 2: "\<forall>a < top h. cells h' a = cells h a" using fr by simp
  have 3: "well_formed self \<and> field_of self (cells h u) \<longrightarrow>
            res = Inr (top h)
          \<and> cells h' (top h) = \<lparr> adtype = adtype (cells h u), data =
               map (\<lambda>i. step_value self dz i (data (cells h u) ! i)) [0..<Nkz self] \<rparr>"
  proof
    assume "well_formed self \<and> field_of self (cells h u)"
    then have wf: "well_formed self" and fu: "field_of self (cells h u)" by simp_all
    from step_value_thm[OF wf fu al, of dz] obtain p where
      "step self h u dz False =
           (Inr (top h), p,
            h\<lparr> cells := (cells h)(top h := \<lparr> adtype = adtype (cells h u), data =
                   map (\<lambda>i. step_value self dz i (data (cells h u) ! i)) [0..<Nkz self] \<rparr>),
               top := Suc (top h) \<rparr>)" by blast
    with run have r: "res = Inr (top h)"
      and h': "h' = h\<lparr> cells := (cells h)(top h := \<lparr> adtype = adtype (cells h u), data =
                   map (\<lambda>i. step_value self dz i (data (cells h u) ! i)) [0..<Nkz self] \<rparr>),
               top := Suc (top h) \<rparr>" by simp_all
    show "res = Inr (top h)
          \<and> cells h' (top h) = \<lparr> adtype = adtype (cells h u), data =
               map (\<lambda>i. step_value self dz i (data (cells h u) ! i)) [0..<Nkz self] \<rparr>"
      using r by (simp add: h')
  qed
  show ?thesis using 1 2 rf 3 by blast
qed

lemma sample_step_value:
  "step_value (sample_fft2 1) dz 0 [a, b, c, d] =
     idft2 2 2 (map2 (*) (dft2 2 2 [a, b, c, d]) [exp (\<i> * of_real dz), 1, 1, 1])"
  by (simp add: step_value_def forward_def backward_def sample_fft2_fields clamp_rate_def
      phase_factors_def)

lemma single_mode_unchanged:
  "step_value (sample_fft2 1) dz 0 [1 / 4, - (1 / 4), - (1 / 4), 1 / 4]
     = [1 / 4, - (1 / 4), - (1 / 4), 1 / 4]"
  apply (simp only: sample_step_value dft2_22)
  apply simp
  apply (simp only: idft2_22)
  apply simp
  done

theorem step_writes_fresh_array_witness:
  "cells (snd (snd (step (sample_fft2 1) sample_heap 1 0 False))) 1 = single_mode
   \<and> fst (step (sample_fft2 1) sample_heap 1 0 False) = Inr 3
   \<and> cells (snd (snd (step (sample_fft2 1) sample_heap 1 0 False))) 3 = single_mode"
proof -
  have run: "step (sample_fft2 1) sample_heap 1 0 False =
      (fst (step (sample_fft2 1) sample_heap 1 0 False),
       fst (snd (step (sample_fft2 1) sample_heap 1 0 False)),
       snd (snd (step (sample_fft2 1) sample_heap 1 0 False)))"
    by (simp only: prod.collapse)
  have al: "1 < top sample_heap" by (simp add: sample_heap_def)
  have c: "cells sample_heap 1 = single_mode" by (simp add: sample_heap_def)
  have t: "top sample_heap = 3" by (simp add: sample_heap_def)
  have fu: "field_of (sample_fft2 1) (cells sample_heap 1)"
    unfolding c by (rule sample_fields)
  have wf: "well_formed (sample_fft2 1)" by (rule sample_fft2_well_formed)
  have rows: "map (\<lambda>i. step_value (sample_fft2 1) 0 i (data single_mode ! i)) [0..<Nkz (sample_fft2 1)]
      = data single_mode"
    by (simp add: sample_fft2_fields single_mode_def single_mode_unchanged)
  have a: "adtype single_mode = Complex128" by (simp add: single_mode_def)
  from step_writes_fresh_array[OF run al]
  have 1: "cells (snd (snd (step (sample_fft2 1) sample_heap 1 0 False))) 1 = cells sample_heap 1"
    and 2: "well_formed (sample_fft2 1) \<and> field_of (sample_fft2 1) (cells sample_heap 1) \<longrightarrow>
            fst (step (sample_fft2 1) sample_heap 1 0 False) = Inr (top sample_heap)
          \<and> cells (snd (snd (step (sample_fft2 1) sample_heap 1 0 False))) (top sample_heap)
             = \<lparr> adtype = adtype (cells sample_heap 1), data =
               map (\<lambda>i. step_value (sample_fft2 1) 0 i (data (cells sample_heap 1) ! i))
                 [0..<Nkz (sample_fft2 1)] \<rparr>"
    by blast+
  from 2 wf fu have 3: "fst (step (sample_fft2 1) sample_heap 1 0 False) = Inr (top sample_heap)"
    and 4: "cells (snd (snd (step (sample_fft2 1) sample_heap 1 0 False))) (top sample_heap)
             = \<lparr> adtype = adtype (cells sample_heap 1), data =
               map (\<lambda>i. step_value (sample_fft2 1) 0 i (data (cells sample_heap 1) ! i))
                 [0..<Nkz (sample_fft2 1)] \<rparr>"
    by blast+
  have 5: "cells (snd (snd (step (sample_fft2 1) sample_heap 1 0 False))) 3 = single_mode"
    using 4 unfolding c t rows by (simp add: single_mode_def)
  show ?thesis using 1 3 5 unfolding c t by blast
qed

section \<open>Loops with an invariant\<close>

lemma for_range_invariant:
  assumes init: "I 0 s"
    and step: "\<And>i s. i < n \<Longrightarrow> I i s \<Longrightarrow> \<exists>s'. body i s = (Inr (), s') \<and> I (Suc i) s'"
  shows "\<exists>s'. for_range n body s = (Inr (), s') \<and> I n s'"
proof -
  have "m \<le> n \<Longrightarrow> \<exists>s'. for_range m body s = (Inr (), s') \<and> I m s'" for m
  proof (induction m)
    case 0
    then show ?case using init by simp
  next
    case (Suc m)
    then obtain s1 where r: "for_range m body s = (Inr (), s1)" and i: "I m s1" by auto
    from step[of m s1] Suc.prems i obtain s2 where "body m s1 = (Inr (), s2)" "I (Suc m) s2"
      by auto
    then show ?case using r by (simp add: for_range_Suc)
  qed
  then show ?thesis by simp
qed

section \<open>The stepping session\<close>

lemma setitem_value:
  "i < length rows \<Longrightarrow> length v = length (rows ! i) \<Longrightarrow> setitem rows i v = Inr (rows[i := v])"
  by (simp add: setitem_def fit_def)

lemma initiate_stepping_value:
  assumes wf: "well_formed self" and fu: "field_of self u"
  shows "\<exists>s. initiate_stepping self u = (Inr (), s)
           \<and> session_state self (\<lambda>i. forward self (data u ! i)) s"
proof -
  define s0 where "s0 = self\<lparr> stepping_image := Some (data (zeros_like u)),
                 phase_loc := Some (data (zeros_like u)), z_propagation := Some 0 \<rparr>"
  define I where "I = (\<lambda>n s. frozen s = frozen self \<and> z_propagation s = Some 0 \<and>
     (\<exists>img pl. stepping_image s = Some img \<and> phase_loc s = Some pl \<and>
        length img = length (data u) \<and> length pl = length (data u) \<and>
        (\<forall>i < Nkz self. length (img ! i) = in_size self \<and> length (pl ! i) = in_size self) \<and>
        (\<forall>i < n. img ! i = forward self (data u ! i) \<and> pl ! i = map of_real (clamp_rate self i))))"
  have nk: "Nkz self \<le> length (data u)" using fu by (simp add: field_of_def)
  have I0: "I 0 s0"
    using nk field_of_rows[OF fu] by (simp add: I_def s0_def zeros_like_def zeros_def)
  have stepI: "\<exists>s'. initiate_stepping_body u i s = (Inr (), s') \<and> I (Suc i) s'"
    if i: "i < Nkz self" and inv: "I i s" for i s
  proof -
    from inv obtain img pl where fr: "frozen s = frozen self" and z: "z_propagation s = Some 0"
      and im: "stepping_image s = Some img" and ph: "phase_loc s = Some pl"
      and li: "length img = length (data u)" and lp: "length pl = length (data u)"
      and sz: "\<forall>i < Nkz self. length (img ! i) = in_size self \<and> length (pl ! i) = in_size self"
      and dn: "\<forall>j < i. img ! j = forward self (data u ! j) \<and> pl ! j = map of_real (clamp_rate self j)"
      unfolding I_def by blast
    define row where "row = data u ! i"
    define s1 where "s1 = s\<lparr> u_loc := row \<rparr>"
    have f1: "frozen s1 = frozen self" using fr by (simp add: s1_def)
    have wf1: "well_formed s1" using wf frozen_well_formed[OF f1] by simp
    have st1: "set_u_loc (getitem (data u) i) s = (Inr (), s1)"
      using i nk by (simp add: set_u_loc_def getitem_def s1_def row_def)
    have "length (u_loc s1) = in_size s1"
      using field_of_rows[OF fu i] frozen_sizes[OF f1] by (simp add: s1_def row_def)
    from TST_value[OF wf1 this] obtain s2 where
      t: "TST s1 = (Inr (), s2)" and h2: "u_ht s2 = forward s1 (u_loc s1)"
      and f2: "frozen s2 = frozen s1" and im2: "stepping_image s2 = stepping_image s1"
      and ph2: "phase_loc s2 = phase_loc s1" and z2: "z_propagation s2 = z_propagation s1"
      by blast
    have h2': "u_ht s2 = forward self row" using h2 frozen_forward[OF f1] by (simp add: s1_def)
    have g2: "frozen s2 = frozen self" using f2 f1 by simp
    have il: "i < length img" using i nk li by simp
    have pl: "i < length pl" using i nk lp by simp
    define s3 where "s3 = s2\<lparr> stepping_image := Some (img[i := forward self row]) \<rparr>"
    have st3: "set_stepping_image i s2 = (Inr (), s3)"
      using im2 im il sz i h2' length_forward[OF wf, of row]
      by (simp add: set_stepping_image_def s1_def s3_def setitem_value)
    have g3: "frozen s3 = frozen self" using g2 by (simp add: s3_def)
    have kz3: "i < length (kz s3)"
      using i wf frozen_cong(4)[OF g3] by (simp add: well_formed_def)
    have rate3: "clamp_rate s3 i = clamp_rate self i" using frozen_rates[OF g3] by simp
    have lr: "length (clamp_rate self i) = in_size self" using wf by (simp add: well_formed_def)
    define s4 where "s4 = s3\<lparr> phase_loc := Some (pl[i := map of_real (clamp_rate self i)]) \<rparr>"
    have st4: "set_phase_loc i s3 = (Inr (), s4)"
      using clamped_phase_value[OF kz3] rate3 ph2 ph pl sz i lr
      by (simp add: set_phase_loc_def s3_def s1_def s4_def setitem_value)
    have run: "initiate_stepping_body u i s = (Inr (), s4)"
      using st1 t st3 st4 by (simp add: initiate_stepping_body_def)
    have a1: "frozen s4 = frozen self" using g3 by (simp add: s4_def)
    have a2: "z_propagation s4 = Some 0" using z z2 by (simp add: s4_def s3_def s1_def)
    have a3: "stepping_image s4 = Some (img[i := forward self row])" by (simp add: s4_def s3_def)
    have a4: "phase_loc s4 = Some (pl[i := map of_real (clamp_rate self i)])" by (simp add: s4_def)
    have a5: "length (img[i := forward self row]) = length (data u)" using li by simp
    have a6: "length (pl[i := map of_real (clamp_rate self i)]) = length (data u)" using lp by simp
    have a7: "\<forall>j < Nkz self. length (img[i := forward self row] ! j) = in_size self \<and>
              length (pl[i := map of_real (clamp_rate self i)] ! j) = in_size self"
      using sz il pl lr length_forward[OF wf, of row] by (simp add: nth_list_update)
    have a8: "\<forall>j < Suc i. img[i := forward self row] ! j = forward self (data u ! j) \<and>
              pl[i := map of_real (clamp_rate self i)] ! j = map of_real (clamp_rate self j)"
      using dn il pl by (auto simp: nth_list_update row_def less_Suc_eq)
    have "I (Suc i) s4"
      unfolding I_def using a1 a2 a3 a4 a5 a6 a7 a8 by blast
    then show ?thesis using run by blast
  qed
  from for_range_invariant[of I s0 "Nkz self" "initiate_stepping_body u", OF I0 stepI]
  obtain s where run: "for_range (Nkz self) (initiate_stepping_body u) s0 = (Inr (), s)"
    and inv: "I (Nkz self) s" by blast
  have "initiate_stepping self u = (Inr (), s)"
    using fu run by (simp add: initiate_stepping_def field_of_def s0_def)
  moreover have "session_state self (\<lambda>i. forward self (data u ! i)) s"
    using inv nk length_forward[OF wf] unfolding I_def session_state_def by auto
  ultimately show ?thesis by blast
qed

lemma session_factors:
  "map (\<lambda>p. exp (\<i> * complex_of_real d * p)) (map complex_of_real rate) = phase_factors d rate"
  "map ((\<lambda>p. exp (\<i> * complex_of_real d * p)) \<circ> complex_of_real) rate = phase_factors d rate"
  by (simp_all add: phase_factors_def comp_def)

lemma stepping_value:
  assumes wf: "well_formed self" and ss: "session_state self H s"
  shows "\<exists>s'. stepping s d None =
           (Inr \<lparr> adtype = dtype self, data =
              map (\<lambda>i. backward self (map2 (*) (H i) (phase_factors d (clamp_rate self i))))
                [0..<Nkz self] \<rparr>, s')
         \<and> session_state self (\<lambda>i. map2 (*) (H i) (phase_factors d (clamp_rate self i))) s'"
proof -
  define H' where "H' = (\<lambda>i. map2 (*) (H i) (phase_factors d (clamp_rate self i)))"
  from ss obtain img0 pl z where fr: "frozen s = frozen self"
    and im0: "stepping_image s = Some img0" and ph0: "phase_loc s = Some pl"
    and z0: "z_propagation s = Some z"
    and li0: "Nkz self \<le> length img0" and lp: "Nkz self \<le> length pl"
    and rows0: "\<forall>i < Nkz self. img0 ! i = H i \<and> length (H i) = in_size self \<and>
                          pl ! i = map of_real (clamp_rate self i)"
    unfolding session_state_def by blast
  have lr: "length (clamp_rate self i) = in_size self" for i
    using wf by (simp add: well_formed_def)
  have lH': "length (H' i) = in_size self" if "i < Nkz self" for i
    using rows0 that lr by (simp add: H'_def)
  define a0 where "a0 = np_empty (Nkz s) (shape_trns_new s) (dtype s)"
  have ks: "Nkz s = Nkz self" and ds: "dtype s = dtype self"
    and shs: "shape_trns_new s = shape_trns_new self"
    using frozen_cong[OF fr] by simp_all
  define I where "I = (\<lambda>n (st :: propagator \<times> ndarray).
     frozen (fst st) = frozen self \<and> z_propagation (fst st) = Some z \<and>
     phase_loc (fst st) = Some pl \<and> adtype (snd st) = dtype self \<and>
     length (data (snd st)) = Nkz self \<and>
     (\<forall>i < Nkz self. length (data (snd st) ! i) = out_size self) \<and>
     (\<exists>img. stepping_image (fst st) = Some img \<and> length img = length img0 \<and>
        (\<forall>i < n. img ! i = H' i \<and> data (snd st) ! i = backward self (H' i)) \<and>
        (\<forall>i. n \<le> i \<and> i < Nkz self \<longrightarrow> img ! i = H i)))"
  have I0: "I 0 (s, a0)"
    using fr z0 ph0 im0 rows0 wf ks ds shs
    by (simp add: I_def a0_def np_empty_def zeros_def well_formed_def)
  have stepI: "\<exists>st'. stepping_body d i st = (Inr (), st') \<and> I (Suc i) st'"
    if i: "i < Nkz self" and inv: "I i st" for i st
  proof -
    obtain p a where st: "st = (p, a)" by (cases st)
    from inv obtain img where f: "frozen p = frozen self" and zp: "z_propagation p = Some z"
      and php: "phase_loc p = Some pl" and ad: "adtype a = dtype self"
      and la: "length (data a) = Nkz self"
      and sa: "\<forall>i < Nkz self. length (data a ! i) = out_size self"
      and imp: "stepping_image p = Some img" and li: "length img = length img0"
      and dn: "\<forall>j < i. img ! j = H' j \<and> data a ! j = backward self (H' j)"
      and todo: "\<forall>j. i \<le> j \<and> j < Nkz self \<longrightarrow> img ! j = H j"
      unfolding I_def st by auto
    have il: "i < length img" using i li li0 by simp
    have ipl: "i < length pl" using i lp by simp
    have row: "img ! i = H i" using todo i by simp
    have rate: "pl ! i = map of_real (clamp_rate self i)" using rows0 i by simp
    have lHi: "length (H i) = in_size self" using rows0 i by simp
    define p1 where "p1 = p\<lparr> stepping_image := Some (img[i := H' i]), u_ht := H' i \<rparr>"
    have s1: "advance_image d i p = (Inr (), p1)"
      using imp php il ipl row rate lHi lr[of i]
      by (simp add: advance_image_def getitem_def inplace_same_length session_factors
          p1_def H'_def)
    have f1: "frozen p1 = frozen self" using f by (simp add: p1_def)
    have wf1: "well_formed p1" using wf frozen_well_formed[OF f1] by simp
    have "length (u_ht p1) = in_size p1"
      using lH'[OF i] frozen_sizes[OF f1] by (simp add: p1_def)
    from iTST_value[OF wf1 this] obtain p2 where
      it: "iTST p1 = (Inr (), p2)" and v2: "u_iht p2 = backward p1 (u_ht p1)"
      and f2: "frozen p2 = frozen p1" and im2: "stepping_image p2 = stepping_image p1"
      and ph2: "phase_loc p2 = phase_loc p1" and z2: "z_propagation p2 = z_propagation p1"
      by blast
    have v2': "u_iht p2 = backward self (H' i)"
      using v2 frozen_backward[OF f1] by (simp add: p1_def)
    have lv: "length (u_iht p2) = out_size self"
      using v2' length_backward[OF wf] by simp
    define a1 where "a1 = a\<lparr> data := (data a)[i := backward self (H' i)] \<rparr>"
    have s3: "setitem (data a) i (u_iht p2) = Inr ((data a)[i := backward self (H' i)])"
      using i la sa lv v2' by (simp add: setitem_value)
    have run: "stepping_body d i st = (Inr (), (p2, a1))"
      using s1 it s3 by (simp add: stepping_body_def on_self_def st a1_def)
    have b1: "frozen p2 = frozen self" using f2 f1 by simp
    have b2: "z_propagation p2 = Some z" using z2 zp by (simp add: p1_def)
    have b3: "phase_loc p2 = Some pl" using ph2 php by (simp add: p1_def)
    have b4: "adtype a1 = dtype self" using ad by (simp add: a1_def)
    have b5: "length (data a1) = Nkz self" using la by (simp add: a1_def)
    have b6: "\<forall>j < Nkz self. length (data a1 ! j) = out_size self"
      using sa la i length_backward[OF wf] by (simp add: a1_def nth_list_update)
    have b7: "stepping_image p2 = Some (img[i := H' i])" using im2 by (simp add: p1_def)
    have b8: "length (img[i := H' i]) = length img0" using li by simp
    have b9: "\<forall>j < Suc i. img[i := H' i] ! j = H' j \<and> data a1 ! j = backward self (H' j)"
      using dn il i la by (auto simp: a1_def nth_list_update less_Suc_eq)
    have b10: "\<forall>j. Suc i \<le> j \<and> j < Nkz self \<longrightarrow> img[i := H' i] ! j = H j"
      using todo by (auto simp: nth_list_update)
    have "I (Suc i) (p2, a1)"
      unfolding I_def using b1 b2 b3 b4 b5 b6 b7 b8 b9 b10 by simp
    then show ?thesis using run by blast
  qed
  from for_range_invariant[of I "(s, a0)" "Nkz self" "stepping_body d", OF I0 stepI]
  obtain st where run: "for_range (Nkz self) (stepping_body d) (s, a0) = (Inr (), st)"
    and inv: "I (Nkz self) st" by blast
  obtain p a where st: "st = (p, a)" by (cases st)
  from inv obtain img where f: "frozen p = frozen self" and zp: "z_propagation p = Some z"
      and php: "phase_loc p = Some pl" and ad: "adtype a = dtype self"
      and la: "length (data a) = Nkz self"
      and imp: "stepping_image p = Some img" and li: "length img = length img0"
      and dn: "\<forall>j < Nkz self. img ! j = H' j \<and> data a ! j = backward self (H' j)"
      unfolding I_def st by auto
  have d: "data a = map (\<lambda>i. backward self (H' i)) [0..<Nkz self]"
    using la dn by (intro nth_equalityI) simp_all
  have a: "a = \<lparr> adtype = dtype self, data = map (\<lambda>i. backward self (H' i)) [0..<Nkz self] \<rparr>"
    using ad d by (cases a) simp
  have res: "stepping s d None = (Inr a, p\<lparr> z_propagation := Some (z + d) \<rparr>)"
    using run zp by (simp add: stepping_def ks a0_def st)
  have "session_state self H' (p\<lparr> z_propagation := Some (z + d) \<rparr>)"
    unfolding session_state_def
    using f imp php li li0 lp dn rows0 lH' by auto
  then show ?thesis using res a unfolding H'_def by blast
qed

lemma advance_simps [simp]:
  "advance rate h [] = h"
  "advance rate h (d # ds) = advance rate (map2 (*) h (phase_factors d rate)) ds"
  "advance rate h (ds @ [d]) = map2 (*) (advance rate h ds) (phase_factors d rate)"
  by (simp_all add: advance_def)

lemma length_advance: "length rate = length h \<Longrightarrow> length (advance rate h ds) = length h"
  by (induction ds arbitrary: h) simp_all

lemma stepping_calls_value:
  assumes wf: "well_formed self" and ss: "session_state self H s"
  shows "\<exists>s'. stepping_calls s ds =
           (Inr (map (\<lambda>k. \<lparr> adtype = dtype self, data =
                    map (\<lambda>i. backward self (advance (clamp_rate self i) (H i) (take (Suc k) ds)))
                      [0..<Nkz self] \<rparr>) [0..<length ds]), s')"
  using ss
proof (induction ds arbitrary: H s)
  case Nil
  then show ?case by simp
next
  case (Cons d ds)
  define H' where "H' = (\<lambda>i. map2 (*) (H i) (phase_factors d (clamp_rate self i)))"
  from stepping_value[OF wf Cons.prems, of d] obtain s1 where
    st: "stepping s d None =
           (Inr \<lparr> adtype = dtype self, data = map (\<lambda>i. backward self (H' i)) [0..<Nkz self] \<rparr>, s1)"
    and ss1: "session_state self H' s1" unfolding H'_def by blast
  from Cons.IH[OF ss1] obtain s2 where
    rest: "stepping_calls s1 ds =
           (Inr (map (\<lambda>k. \<lparr> adtype = dtype self, data =
                    map (\<lambda>i. backward self (advance (clamp_rate self i) (H' i) (take (Suc k) ds)))
                      [0..<Nkz self] \<rparr>) [0..<length ds]), s2)" by blast
  have "stepping_calls s (d # ds) =
           (Inr (map (\<lambda>k. \<lparr> adtype = dtype self, data =
                    map (\<lambda>i. backward self (advance (clamp_rate self i) (H i) (take (Suc k) (d # ds))))
                      [0..<Nkz self] \<rparr>) [0..<length (d # ds)]), s2)"
    using st rest by (simp add: map_upt_Suc H'_def del: upt_Suc)
  then show ?case by blast
qed

section \<open>The result of steps\<close>

lemma setitem3_value:
  "k < length planes \<Longrightarrow> i < length (planes ! k) \<Longrightarrow> length v = length (planes ! k ! i) \<Longrightarrow>
     setitem3 planes k i v = Inr (planes[k := (planes ! k)[i := v]])"
  by (simp add: setitem3_def setitem_value)

lemma steps_value:
  assumes wf: "well_formed self" and fu: "field_of self u" and ne: "ds \<noteq> []"
  shows "\<exists>s'. steps self u (Some ds) None =
           (Inr (Some \<lparr> adtype = adtype u, data =
              map (\<lambda>k. map (\<lambda>i. backward self
                      (advance (abs_rate self i) (forward self (data u ! i)) (take (Suc k) ds)))
                    [0..<Nkz self]) [0..<length ds] \<rparr>), s')"
proof -
  define N where "N = length ds"
  define val where "val = (\<lambda>k i. backward self
                      (advance (abs_rate self i) (forward self (data u ! i)) (take (Suc k) ds)))"
  define shape where "shape = (\<lambda>stack :: ndarray3. adtype stack = adtype u \<and>
     length (data stack) = N \<and>
     (\<forall>k < N. length (data stack ! k) = Nkz self \<and>
        (\<forall>i < Nkz self. length (data stack ! k ! i) = out_size self)))"
  define J where "J = (\<lambda>n (st :: propagator \<times> ndarray3).
     frozen (fst st) = frozen self \<and> shape (snd st) \<and>
     (\<forall>k < N. \<forall>i < n. data (snd st) ! k ! i = val k i))"
  define stack0 where "stack0 = np_empty3 N (Nkz self) (shape_trns_new self) (adtype u)"
  have nk: "Nkz self \<le> length (data u)" using fu by (simp add: field_of_def)
  have lr: "length (abs_rate self i) = in_size self" for i
    using wf by (simp add: well_formed_def)
  have J0: "J 0 (self, stack0)"
    using wf by (simp add: J_def shape_def stack0_def np_empty3_def zeros_def well_formed_def)
  have stepJ: "\<exists>st'. steps_body u ds i st = (Inr (), st') \<and> J (Suc i) st'"
    if i: "i < Nkz self" and inv: "J i st" for i st
  proof -
    obtain p stack where st: "st = (p, stack)" by (cases st)
    from inv have f: "frozen p = frozen self" and sh: "shape stack"
      and dn: "\<forall>k < N. \<forall>j < i. data stack ! k ! j = val k j"
      unfolding J_def st by auto
    define row where "row = data u ! i"
    define h where "h = forward self row"
    define p1 where "p1 = p\<lparr> u_loc := row \<rparr>"
    have f1: "frozen p1 = frozen self" using f by (simp add: p1_def)
    have wf1: "well_formed p1" using wf frozen_well_formed[OF f1] by simp
    have st1: "set_u_loc (getitem (data u) i) p = (Inr (), p1)"
      using i nk by (simp add: set_u_loc_def getitem_def p1_def row_def)
    have "length (u_loc p1) = in_size p1"
      using field_of_rows[OF fu i] frozen_sizes[OF f1] by (simp add: p1_def row_def)
    from TST_value[OF wf1 this] obtain p2 where
      t: "TST p1 = (Inr (), p2)" and h2: "u_ht p2 = forward p1 (u_loc p1)"
      and f2: "frozen p2 = frozen p1" by blast
    have h2': "u_ht p2 = h" using h2 frozen_forward[OF f1] by (simp add: p1_def h_def)
    have g2: "frozen p2 = frozen self" using f2 f1 by simp
    have kz2: "i < length (kz p2)" using i wf frozen_cong(4)[OF g2] by (simp add: well_formed_def)
    have ik: "abs_phase p2 i = Inr (abs_rate self i)"
      using abs_phase_value[OF kz2] frozen_rates[OF g2] by simp
    have lh: "length h = in_size self" using length_forward[OF wf] by (simp add: h_def)
    define K where "K = (\<lambda>m (st :: propagator \<times> ndarray3).
       frozen (fst st) = frozen self \<and> shape (snd st) \<and>
       u_ht (fst st) = advance (abs_rate self i) h (take m ds) \<and>
       (\<forall>k < N. \<forall>j < Nkz self. (j < i \<or> (j = i \<and> k < m)) \<longrightarrow> data (snd st) ! k ! j = val k j))"
    have K0: "K 0 (p2, stack)"
      using g2 sh h2' dn by (simp add: K_def)
    have stepK: "\<exists>st'. steps_inner ds (Inr (abs_rate self i)) i m st = (Inr (), st') \<and> K (Suc m) st'"
      if m: "m < N" and kin: "K m st" for m st
    proof -
      obtain q stk where sq: "st = (q, stk)" by (cases st)
      from kin have fq: "frozen q = frozen self" and shq: "shape stk"
        and hq: "u_ht q = advance (abs_rate self i) h (take m ds)"
        and dq: "\<forall>k < N. \<forall>j < Nkz self. (j < i \<or> (j = i \<and> k < m)) \<longrightarrow> data stk ! k ! j = val k j"
        unfolding K_def sq by auto
      have lq: "length (u_ht q) = in_size self"
        using hq lh lr[of i] by (simp add: length_advance)
      define g where "g = advance (abs_rate self i) h (take (Suc m) ds)"
      have g: "g = map2 (*) (u_ht q) (phase_factors (ds ! m) (abs_rate self i))"
        using m hq by (simp add: g_def N_def take_Suc_conv_app_nth)
      define q1 where "q1 = q\<lparr> u_ht := g \<rparr>"
      have m1: "mul_u_ht (ds ! m) (Inr (abs_rate self i)) q = (Inr (), q1)"
        using mul_u_ht_value[of "abs_rate self i" q "ds ! m"] lq lr[of i] g by (simp add: q1_def)
      have fq1: "frozen q1 = frozen self" using fq by (simp add: q1_def)
      have wfq1: "well_formed q1" using wf frozen_well_formed[OF fq1] by simp
      have "length (u_ht q1) = in_size q1"
        using g lq lr[of i] frozen_sizes[OF fq1] by (simp add: q1_def)
      from iTST_value[OF wfq1 this] obtain q2 where
        it: "iTST q1 = (Inr (), q2)" and v2: "u_iht q2 = backward q1 (u_ht q1)"
        and fq2: "frozen q2 = frozen q1" by blast
      have hq2: "u_ht q2 = g"
        using it by (auto simp: iTST_def Symmetric_iTST_def Resampling_iTST_def FFT2_iTST_def
            q1_def Let_def split: kind.splits sum.splits)
      have v2': "u_iht q2 = val m i"
        using v2 frozen_backward[OF fq1] by (simp add: q1_def val_def g_def h_def row_def)
      have lv: "length (u_iht q2) = out_size self"
        using v2 frozen_backward[OF fq1] length_backward[OF wf] by simp
      have mk: "m < length (data stk)" and ik': "i < length (data stk ! m)"
        and lrow: "length (data stk ! m ! i) = out_size self"
        using shq m i unfolding shape_def by auto
      define stk1 where "stk1 = stk\<lparr> data := (data stk)[m := (data stk ! m)[i := val m i]] \<rparr>"
      have s3: "setitem3 (data stk) m i (u_iht q2) = Inr ((data stk)[m := (data stk ! m)[i := val m i]])"
        using setitem3_value[OF mk ik', of "u_iht q2"] lv lrow v2' by simp
      have run: "steps_inner ds (Inr (abs_rate self i)) i m st = (Inr (), (q2, stk1))"
        using m1 it s3 by (simp add: steps_inner_def on_self_def sq stk1_def)
      have c1: "frozen q2 = frozen self" using fq2 fq1 by simp
      have c2: "shape stk1"
        using shq m i length_backward[OF wf] unfolding shape_def stk1_def val_def
        by (auto simp: nth_list_update)
      have c3: "u_ht q2 = advance (abs_rate self i) h (take (Suc m) ds)" using hq2 by (simp add: g_def)
      have c4: "\<forall>k < N. \<forall>j < Nkz self. (j < i \<or> (j = i \<and> k < Suc m)) \<longrightarrow> data stk1 ! k ! j = val k j"
        using dq shq m i unfolding shape_def stk1_def
        by (auto simp: nth_list_update less_Suc_eq)
      have "K (Suc m) (q2, stk1)" unfolding K_def using c1 c2 c3 c4 by simp
      then show ?thesis using run by blast
    qed
    from for_range_invariant[of K "(p2, stack)" N "steps_inner ds (Inr (abs_rate self i)) i",
        OF K0 stepK]
    obtain st' where inner: "for_range N (steps_inner ds (Inr (abs_rate self i)) i) (p2, stack) = (Inr (), st')"
      and kN: "K N st'" by blast
    have run: "steps_body u ds i st = (Inr (), st')"
      using st1 t inner ik by (simp add: steps_body_def on_self_def st N_def)
    have "J (Suc i) st'"
      using kN i unfolding K_def J_def by (auto simp: less_Suc_eq)
    then show ?thesis using run by blast
  qed
  from for_range_invariant[of J "(self, stack0)" "Nkz self" "steps_body u ds", OF J0 stepJ]
  obtain st where run: "for_range (Nkz self) (steps_body u ds) (self, stack0) = (Inr (), st)"
    and jn: "J (Nkz self) st" by blast
  obtain p stack where st: "st = (p, stack)" by (cases st)
  from jn have sh: "shape stack" and vals: "\<forall>k < N. \<forall>i < Nkz self. data stack ! k ! i = val k i"
    unfolding J_def st by auto
  have d: "data stack = map (\<lambda>k. map (\<lambda>i. val k i) [0..<Nkz self]) [0..<N]"
  proof (rule nth_equalityI)
    show "length (data stack) = length (map (\<lambda>k. map (\<lambda>i. val k i) [0..<Nkz self]) [0..<N])"
      using sh unfolding shape_def by simp
  next
    fix k assume "k < length (data stack)"
    then have k: "k < N" using sh unfolding shape_def by simp
    have "data stack ! k = map (\<lambda>i. val k i) [0..<Nkz self]"
      using sh vals k unfolding shape_def by (intro nth_equalityI) simp_all
    then show "data stack ! k = map (\<lambda>k. map (\<lambda>i. val k i) [0..<Nkz self]) [0..<N] ! k"
      using k by simp
  qed
  have "stack = \<lparr> adtype = adtype u, data = map (\<lambda>k. map (\<lambda>i. val k i) [0..<Nkz self]) [0..<N] \<rparr>"
    using sh d unfolding shape_def by (cases stack) simp
  moreover have "steps self u (Some ds) None = (Inr (Some stack), p)"
    using fu ne run by (simp add: steps_def field_of_def stack0_def N_def st Let_def)
  ultimately show ?thesis unfolding val_def N_def by blast
qed
section \<open>The stepping session and steps\<close>

lemma clamp_free_rates:
  assumes "\<forall>k2 \<in> set (kr2 self). k2 \<le> (kz self ! i) ^ 2"
  shows "clamp_rate self i = abs_rate self i"
  unfolding clamp_rate_def abs_rate_def using assms by (intro map_cong refl) simp

lemma stepping_session_value:
  assumes wf: "well_formed self" and fu: "field_of self u"
  shows "\<exists>s'. stepping_session self u ds =
           (Inr (map (\<lambda>k. \<lparr> adtype = dtype self, data =
                    map (\<lambda>i. backward self
                           (advance (clamp_rate self i) (forward self (data u ! i)) (take (Suc k) ds)))
                      [0..<Nkz self] \<rparr>) [0..<length ds]), s')"
proof -
  from initiate_stepping_value[OF wf fu] obtain s where
    i: "initiate_stepping self u = (Inr (), s)"
    and ss: "session_state self (\<lambda>i. forward self (data u ! i)) s" by blast
  from stepping_calls_value[OF wf ss, of ds] i show ?thesis
    by (auto simp: stepping_session_def)
qed

text \<open>
  C3. Let no mode be evanescent: every entry of \<^verbatim>\<open>kr2\<close> is at most \<^verbatim>\<open>kz[i]**2\<close>,
  for every slice \<open>i\<close>. For a well-formed propagator, a field of its shape and a schedule
  \<open>ds\<close>, if \<open>ds\<close> is empty then \<^verbatim>\<open>steps\<close> returns \<^verbatim>\<open>None\<close> and the session has
  no call to compare; otherwise \<^verbatim>\<open>steps(u, ds)\<close> returns a stack, the session
  \<^verbatim>\<open>initiate_stepping(u)\<close> followed by one \<^verbatim>\<open>stepping(d)\<close> for each \<open>d\<close> of \<open>ds\<close>
  returns as many arrays, and the entry \<open>k\<close> of the stack is the array of the call \<open>k\<close>,
  slice by slice, under the same dtype.
\<close>

theorem stepping_session_matches_steps:
  assumes wf: "well_formed self" and fu: "field_of self u"
    and cf: "\<forall>i < Nkz self. \<forall>k2 \<in> set (kr2 self). k2 \<le> (kz self ! i) ^ 2"
  shows "(ds = [] \<longrightarrow>
            steps self u (Some ds) None = (Inr None, self)
          \<and> (\<exists>s2. stepping_session self u ds = (Inr [], s2)))
       \<and> (ds \<noteq> [] \<longrightarrow>
            (\<exists>stack outs s1 s2.
               steps self u (Some ds) None = (Inr (Some stack), s1)
             \<and> stepping_session self u ds = (Inr outs, s2)
             \<and> length outs = length ds
             \<and> data stack = map data outs
             \<and> list_all (\<lambda>out. adtype out = adtype stack) outs))"
proof (cases "ds = []")
  case True
  have "steps self u (Some ds) None = (Inr None, self)"
    using True fu by (simp add: steps_def field_of_def)
  moreover have "\<exists>s2. stepping_session self u ds = (Inr [], s2)"
    using stepping_session_value[OF wf fu, of ds] True by simp
  ultimately show ?thesis using True by blast
next
  case ne: False
  define val where "val = (\<lambda>rate k i. backward self
     (advance (rate i) (forward self (data u ! i)) (take (Suc k) ds)))"
  from steps_value[OF wf fu ne] obtain s1 where
    a: "steps self u (Some ds) None =
           (Inr (Some \<lparr> adtype = adtype u, data =
              map (\<lambda>k. map (\<lambda>i. val (abs_rate self) k i) [0..<Nkz self]) [0..<length ds] \<rparr>), s1)"
    unfolding val_def by blast
  from stepping_session_value[OF wf fu, of ds] obtain s2 where
    b: "stepping_session self u ds =
           (Inr (map (\<lambda>k. \<lparr> adtype = dtype self, data =
                    map (\<lambda>i. val (clamp_rate self) k i) [0..<Nkz self] \<rparr>) [0..<length ds]), s2)"
    unfolding val_def by blast
  have eq: "map (\<lambda>i. val (clamp_rate self) k i) [0..<Nkz self]
          = map (\<lambda>i. val (abs_rate self) k i) [0..<Nkz self]" for k
    using cf clamp_free_rates[of self] by (intro map_cong refl) (simp add: val_def)
  have dt: "adtype u = dtype self" using fu by (simp add: field_of_def)
  define stack :: ndarray3 where "stack = \<lparr> adtype = adtype u, data =
              map (\<lambda>k. map (\<lambda>i. val (abs_rate self) k i) [0..<Nkz self]) [0..<length ds] \<rparr>"
  define outs :: "ndarray list" where "outs = map (\<lambda>k. \<lparr> adtype = dtype self, data =
                    map (\<lambda>i. val (clamp_rate self) k i) [0..<Nkz self] \<rparr>) [0..<length ds]"
  have 1: "length outs = length ds" by (simp add: outs_def)
  have 2: "data stack = map data outs" by (simp add: stack_def outs_def eq comp_def)
  have 3: "list_all (\<lambda>out. adtype out = adtype stack) outs"
    by (simp add: stack_def outs_def dt list_all_iff)
  have "\<exists>stack outs s1 s2.
               steps self u (Some ds) None = (Inr (Some stack), s1)
             \<and> stepping_session self u ds = (Inr outs, s2)
             \<and> length outs = length ds
             \<and> data stack = map data outs
             \<and> list_all (\<lambda>out. adtype out = adtype stack) outs"
    using a b 1 2 3 unfolding stack_def[symmetric] outs_def[symmetric] by blast
  then show ?thesis using ne by blast
qed

lemma sample_clamp_free: "\<forall>i < Nkz (sample_fft2 2). \<forall>k2 \<in> set (kr2 (sample_fft2 2)). k2 \<le> (kz (sample_fft2 2) ! i) ^ 2"
  by (simp add: sample_fft2_fields)

theorem stepping_session_matches_steps_witness:
  "\<exists>stack outs s1 s2.
     steps (sample_fft2 2) sample_field (Some [1, 2]) None = (Inr (Some stack), s1)
   \<and> stepping_session (sample_fft2 2) sample_field [1, 2] = (Inr outs, s2)
   \<and> length outs = length [1, 2 :: real]
   \<and> data stack = map data outs
   \<and> list_all (\<lambda>out. adtype out = adtype stack) outs"
  using stepping_session_matches_steps[OF sample_fft2_well_formed sample_fields(1) sample_clamp_free,
      of "[1, 2]"]
  by simp

section \<open>The dtype assertions\<close>

lemma seq_commute:
  assumes "\<And>f s. f \<in> set fs \<Longrightarrow> f (g s) = (fst (f s), g (snd (f s)))"
  shows "seq fs (g s) = (fst (seq fs s), g (snd (seq fs s)))"
  using assms
proof (induction fs arbitrary: s)
  case Nil
  then show ?case by simp
next
  case (Cons f fs)
  have f: "f (g s) = (fst (f s), g (snd (f s)))" using Cons.prems by simp
  have IH: "\<And>s. seq fs (g s) = (fst (seq fs s), g (snd (seq fs s)))"
    by (rule Cons.IH) (use Cons.prems in auto)
  show ?case
    by (cases "f s"; cases "fst (f s)") (simp_all add: f IH)
qed

lemma for_range_commute:
  assumes "\<And>i s. i < n \<Longrightarrow> body i (g s) = (fst (body i s), g (snd (body i s)))"
  shows "for_range n body (g s) = (fst (for_range n body s), g (snd (for_range n body s)))"
  unfolding for_range_def by (rule seq_commute) (use assms in auto)

lemma stepping_body_dtype:
  "stepping_body dz i (fst s, (snd s)\<lparr> adtype := t \<rparr>) =
     (fst (stepping_body dz i s),
      (fst (snd (stepping_body dz i s)), (snd (snd (stepping_body dz i s)))\<lparr> adtype := t \<rparr>))"
  unfolding stepping_body_def
  by (rule seq_commute[where g = "\<lambda>s. (fst s, (snd s)\<lparr> adtype := t \<rparr>)"])
     (auto simp: on_self_def split: prod.splits sum.splits)

lemma stepping_ignores_dtype:
  "stepping self dz (Some (a\<lparr> adtype := t \<rparr>)) =
     (map_sum id (\<lambda>res. res\<lparr> adtype := t \<rparr>) (fst (stepping self dz (Some a))),
      snd (stepping self dz (Some a)))"
proof -
  have "for_range (Nkz self) (stepping_body dz) (self, a\<lparr> adtype := t \<rparr>) =
      (fst (for_range (Nkz self) (stepping_body dz) (self, a)),
       (fst (snd (for_range (Nkz self) (stepping_body dz) (self, a))),
        (snd (snd (for_range (Nkz self) (stepping_body dz) (self, a))))\<lparr> adtype := t \<rparr>))"
    using for_range_commute[where g = "\<lambda>s. (fst s, (snd s)\<lparr> adtype := t \<rparr>)"
        and body = "stepping_body dz" and n = "Nkz self" and s = "(self, a)"]
      stepping_body_dtype by simp
  then show ?thesis
    by (auto simp: stepping_def Let_def split: prod.splits sum.splits option.splits)
qed

text \<open>
  C8, as amended. When the dtype of the field differs from the configured one,
  \<^verbatim>\<open>step\<close>, \<^verbatim>\<open>steps\<close> and \<^verbatim>\<open>initiate_stepping\<close> raise
  \<^verbatim>\<open>AssertionError\<close> and leave the propagator and the host memory as they were.
  \<^verbatim>\<open>stepping\<close> has no field argument and looks at no dtype: with another dtype on
  \<^verbatim>\<open>u_out\<close> it does the same and returns the same array, under that dtype.
\<close>

theorem dtype_assertions:
  "(adtype (cells h r) \<noteq> dtype self \<longrightarrow>
      step self h r dz overwrite = (Inl AssertionError, self, h))
   \<and> (adtype u \<noteq> dtype self \<longrightarrow>
        steps self u ds z_axis = (Inl AssertionError, self)
      \<and> initiate_stepping self u = (Inl AssertionError, self))
   \<and> stepping self dz (Some (a\<lparr> adtype := t \<rparr>)) =
       (map_sum id (\<lambda>res. res\<lparr> adtype := t \<rparr>) (fst (stepping self dz (Some a))),
        snd (stepping self dz (Some a)))"
  using stepping_ignores_dtype[where self = self and dz = dz and a = a and t = t]
  by (simp add: step_def steps_def initiate_stepping_def)

text \<open>
  C9. For a field of the configured dtype, \<^verbatim>\<open>steps\<close> with a schedule \<^verbatim>\<open>dz\<close> of no
  step (and no \<^verbatim>\<open>z_axis\<close>, which would replace the schedule by one of at least one
  step) returns \<^verbatim>\<open>None\<close>: it raises nothing, and the propagator is as it was, no
  transform has run and no buffer has changed.
\<close>

theorem steps_empty_schedule:
  "adtype u = dtype self \<Longrightarrow> steps self u (Some []) None = (Inr None, self)"
  by (simp add: steps_def)

theorem steps_empty_schedule_witness:
  "steps (sample_fft2 1) sample_field (Some []) None = (Inr None, sample_fft2 1)"
  using steps_empty_schedule[of sample_field "sample_fft2 1"]
  by (simp add: sample_fft2_fields sample_field_def)

text \<open>A session on the sample propagator, and the longitudinal field of a sample.\<close>

lemma get_Ez_sample:
  "fst (get_Ez (sample_fft2 2) \<lparr> adtype = Complex64, data = [[1, 1, 1, 1]] \<rparr>)
     = Inr \<lparr> adtype = Complex64, data = [[0, 0, 0, 0]] \<rparr>"
  apply (simp add: get_Ez_def sample_fft2_fields for_range_def get_Ez_body_def on_self_def
      set_u_loc_def getitem_def TST_def FFT2_TST_def fft2_def dft2_22 zeros_like_def zeros_def)
  apply (simp add: get_Ez_factor_def abs_phase_def sample_fft2_fields outer_def inplace_def)
  apply (simp add: on_self_def iTST_def FFT2_iTST_def ifft2_def idft2_22 sample_fft2_fields
      setitem_def fit_def)
  done

lemma sample_forward: "forward (sample_fft2 k0) [a, b, c, d] = dft2 2 2 [a, b, c, d]"
  by (simp add: forward_def sample_fft2_fields)

lemma sample_backward: "backward (sample_fft2 k0) [a, b, c, d] = idft2 2 2 [a, b, c, d]"
  by (simp add: backward_def sample_fft2_fields)

lemma sample_stepping:
  "fst (stepping (snd (initiate_stepping (sample_fft2 1) sample_field)) 0 None)
     = Inr \<lparr> adtype = Complex128, data = [[1, 0, 0, 0]] \<rparr>"
proof -
  from initiate_stepping_value[OF sample_fft2_well_formed sample_fields(1), of 1] obtain s where
    i: "initiate_stepping (sample_fft2 1) sample_field = (Inr (), s)"
    and ss: "session_state (sample_fft2 1) (\<lambda>i. forward (sample_fft2 1) (data sample_field ! i)) s"
    by blast
  from stepping_value[OF sample_fft2_well_formed ss, of 0] obtain s' where
    "stepping s 0 None =
           (Inr \<lparr> adtype = dtype (sample_fft2 1), data =
              map (\<lambda>i. backward (sample_fft2 1)
                     (map2 (*) (forward (sample_fft2 1) (data sample_field ! i))
                        (phase_factors 0 (clamp_rate (sample_fft2 1) i))))
                [0..<Nkz (sample_fft2 1)] \<rparr>, s')" by blast
  then have "fst (stepping s 0 None) = Inr \<lparr> adtype = Complex128, data =
       [backward (sample_fft2 1) (map2 (*) (forward (sample_fft2 1) [1, 0, 0, 0]) [1, 1, 1, 1])] \<rparr>"
    by (simp add: sample_fft2_fields sample_field_def phase_factors_def clamp_rate_def)
  also have "backward (sample_fft2 1) (map2 (*) (forward (sample_fft2 1) [1, 0, 0, 0]) [1, 1, 1, 1])
      = [1, 0, 0, 0]"
    apply (simp only: sample_forward dft2_22)
    apply simp
    apply (simp only: sample_backward idft2_22)
    apply simp
    done
  finally show ?thesis using i by simp
qed

lemma sample_session_fields:
  "dtype (snd (initiate_stepping (sample_fft2 1) sample_field)) = Complex128"
  "Nkz (snd (initiate_stepping (sample_fft2 1) sample_field)) = 1"
  "shape_trns_new (snd (initiate_stepping (sample_fft2 1) sample_field)) = [2, 2]"
proof -
  from initiate_stepping_value[OF sample_fft2_well_formed sample_fields(1), of 1] obtain s where
    i: "initiate_stepping (sample_fft2 1) sample_field = (Inr (), s)"
    and ss: "session_state (sample_fft2 1) (\<lambda>i. forward (sample_fft2 1) (data sample_field ! i)) s"
    by blast
  have fr: "frozen s = frozen (sample_fft2 1)" using ss by (simp add: session_state_def)
  show "dtype (snd (initiate_stepping (sample_fft2 1) sample_field)) = Complex128"
    "Nkz (snd (initiate_stepping (sample_fft2 1) sample_field)) = 1"
    "shape_trns_new (snd (initiate_stepping (sample_fft2 1) sample_field)) = [2, 2]"
    using frozen_cong[OF fr] i by (simp_all add: sample_fft2_fields)
qed

text \<open>
  C8 as it was stated fails. In a session of a \<^verbatim>\<open>complex128\<close> propagator,
  \<^verbatim>\<open>stepping\<close> given a \<^verbatim>\<open>complex64\<close> array \<^verbatim>\<open>u_out\<close> returns the propagated
  field in it; and \<^verbatim>\<open>get_Ez\<close> of a \<^verbatim>\<open>complex128\<close> propagator given a
  \<^verbatim>\<open>complex64\<close> field returns the longitudinal field. Neither raises.
\<close>

theorem dtype_assertions_counterexample:
  "dtype (snd (initiate_stepping (sample_fft2 1) sample_field)) = Complex128
   \<and> fst (stepping (snd (initiate_stepping (sample_fft2 1) sample_field)) 0
            (Some \<lparr> adtype = Complex64, data = [[0, 0, 0, 0]] \<rparr>))
       = Inr \<lparr> adtype = Complex64, data = [[1, 0, 0, 0]] \<rparr>
   \<and> dtype (sample_fft2 2) = Complex128
   \<and> fst (get_Ez (sample_fft2 2) \<lparr> adtype = Complex64, data = [[1, 1, 1, 1]] \<rparr>)
       = Inr \<lparr> adtype = Complex64, data = [[0, 0, 0, 0]] \<rparr>"
proof -
  define s where "s = snd (initiate_stepping (sample_fft2 1) sample_field)"
  define a0 :: ndarray where "a0 = \<lparr> adtype = Complex128, data = [[0, 0, 0, 0]] \<rparr>"
  have e: "np_empty (Nkz s) (shape_trns_new s) (dtype s) = a0"
    by (simp add: s_def sample_session_fields np_empty_def zeros_def a0_def numeral_eq_Suc)
  have n: "stepping s 0 (Some a0) = stepping s 0 None"
    by (simp add: stepping_def e)
  have "stepping s 0 (Some (a0\<lparr> adtype := Complex64 \<rparr>)) =
     (map_sum id (\<lambda>res. res\<lparr> adtype := Complex64 \<rparr>) (fst (stepping s 0 (Some a0))),
      snd (stepping s 0 (Some a0)))"
    by (rule stepping_ignores_dtype)
  moreover have "fst (stepping s 0 (Some a0)) = Inr \<lparr> adtype = Complex128, data = [[1, 0, 0, 0]] \<rparr>"
    unfolding n using sample_stepping by (simp add: s_def)
  ultimately have "fst (stepping s 0 (Some (a0\<lparr> adtype := Complex64 \<rparr>)))
      = Inr \<lparr> adtype = Complex64, data = [[1, 0, 0, 0]] \<rparr>"
    by simp
  then have 1: "fst (stepping s 0 (Some \<lparr> adtype = Complex64, data = [[0, 0, 0, 0]] \<rparr>))
      = Inr \<lparr> adtype = Complex64, data = [[1, 0, 0, 0]] \<rparr>"
    by (simp add: a0_def)
  show ?thesis
    using 1 get_Ez_sample sample_session_fields(1) sample_fft2_fields(2)[of 2]
    unfolding s_def by blast
qed

theorem dtype_assertions_witness:
  "step (sample_fft2 1) \<lparr> cells = (\<lambda>a. sample_field\<lparr> adtype := Complex64 \<rparr>), top = 1 \<rparr> 0 1 False
     = (Inl AssertionError, sample_fft2 1,
        \<lparr> cells = (\<lambda>a. sample_field\<lparr> adtype := Complex64 \<rparr>), top = 1 \<rparr>)
   \<and> steps (sample_fft2 1) (sample_field\<lparr> adtype := Complex64 \<rparr>) (Some [1]) None
       = (Inl AssertionError, sample_fft2 1)
   \<and> initiate_stepping (sample_fft2 1) (sample_field\<lparr> adtype := Complex64 \<rparr>)
       = (Inl AssertionError, sample_fft2 1)"
  using dtype_assertions[of "\<lparr> cells = (\<lambda>a. sample_field\<lparr> adtype := Complex64 \<rparr>), top = 1 \<rparr>"
      0 "sample_fft2 1" 1 False "sample_field\<lparr> adtype := Complex64 \<rparr>" "Some [1]" None]
  by (simp add: sample_fft2_fields)

section \<open>Evanescent modes\<close>



lemma sample_evanescent:
  "0 < length (kz (sample_fft2 1))" "3 < length (kr2 (sample_fft2 1))"
  "(kz (sample_fft2 1) ! 0) ^ 2 < kr2 (sample_fft2 1) ! 3"
  by (simp_all add: sample_fft2_fields)






section \<open>The round trip of the transforms\<close>

subsection \<open>The discrete Fourier transform and its inverse\<close>








subsection \<open>A matrix and its inverse\<close>





subsection \<open>Transform, identity phase, inverse transform\<close>






subsection \<open>Bounds on the Bessel series\<close>







lemma jn_series_0: "0 < n \<Longrightarrow> jn_series n 0 = 0"
proof -
  assume n: "0 < n"
  have "(\<lambda>k. (- 1) ^ k / (fact k * fact (k + nat n)) * (0 / 2 :: real) ^ (2 * k + nat n)) = (\<lambda>k. 0)"
    using n by (intro ext) simp
  then show ?thesis by (simp only: jn_series_def suminf_zero)
qed







subsection \<open>The radial propagators with one node\<close>











end
